theory Spec2Isabelle
  imports Complex_Main
begin

section \<open>Python primitives used by the script\<close>

text \<open>
  The script is one function, \<open>solve_rcpsp\<close>, wrapped in one \<open>try\<close> block, and a batch
  loop in \<open>main\<close>. Every exception the script's own expressions can raise is a value of
  \<open>py_error\<close>; \<open>LibraryError\<close> stands for any exception coming out of the constraint
  programming library.
\<close>

datatype py_error = OSError | ValueError | IndexError | LibraryError

text \<open>
  \<open>str.split()\<close> without arguments: the text is cut at runs of whitespace and empty
  pieces are dropped. Characters are code points below 256; among them Python's
  \<open>str.isspace\<close> holds for 9 to 13, 28 to 32, 133 and 160.
\<close>

definition is_space :: "char \<Rightarrow> bool" where
  "is_space c =
     (let k = (of_char c :: nat)
      in (9 \<le> k \<and> k \<le> 13) \<or> (28 \<le> k \<and> k \<le> 32) \<or> k = 133 \<or> k = 160)"

fun split_acc :: "string \<Rightarrow> string \<Rightarrow> string list" where
  "split_acc cur [] = (if cur = [] then [] else [rev cur])"
| "split_acc cur (c # cs) =
     (if is_space c
      then (if cur = [] then [] else [rev cur]) @ split_acc [] cs
      else split_acc (c # cur) cs)"

definition py_split :: "string \<Rightarrow> string list" where
  "py_split s = split_acc [] s"

text \<open>
  \<open>int(v)\<close> on a token without whitespace: an optional sign, then decimal digits in
  which single underscores may stand between two digits. Anything else raises
  \<open>ValueError\<close>, and so does a token of more than 4300 digits (the default
  \<open>sys.int_max_str_digits\<close> of CPython 3.11).
\<close>

definition is_digit :: "char \<Rightarrow> bool" where
  "is_digit c = (let k = (of_char c :: nat) in 48 \<le> k \<and> k \<le> 57)"

definition digit_val :: "char \<Rightarrow> nat" where
  "digit_val c = (of_char c :: nat) - 48"

fun py_digits :: "bool \<Rightarrow> nat \<Rightarrow> string \<Rightarrow> nat option" where
  "py_digits prev acc [] = (if prev then Some acc else None)"
| "py_digits prev acc (c # cs) =
     (if is_digit c then py_digits True (10 * acc + digit_val c) cs
      else if c = CHR ''_'' \<and> prev then py_digits False acc cs
      else None)"

definition py_int :: "string \<Rightarrow> py_error + int" where
  "py_int s =
     (let (sg, ds) =
        (case s of
           [] \<Rightarrow> (1::int, [])
         | c # cs \<Rightarrow>
             if c = CHR ''-'' then (- 1, cs)
             else if c = CHR ''+'' then (1, cs)
             else (1, s))
      in if length (filter is_digit ds) > 4300 then Inl ValueError
         else
           (case py_digits False 0 ds of
              None \<Rightarrow> Inl ValueError
            | Some n \<Rightarrow> Inr (sg * int n)))"

text \<open>A comprehension whose element expression may raise stops at the first exception.\<close>

fun traverse :: "('a \<Rightarrow> py_error + 'b) \<Rightarrow> 'a list \<Rightarrow> py_error + 'b list" where
  "traverse f [] = Inr []"
| "traverse f (x # xs) =
     (case f x of
        Inl e \<Rightarrow> Inl e
      | Inr y \<Rightarrow> (case traverse f xs of Inl e \<Rightarrow> Inl e | Inr ys \<Rightarrow> Inr (y # ys)))"

text \<open>
  List indexing \<open>xs[i]\<close>: a negative index counts from the end, and an index outside
  \<open>-len(xs) .. len(xs) - 1\<close> raises \<open>IndexError\<close>. \<open>py_position\<close> is the position the
  index denotes.
\<close>

definition py_position :: "nat \<Rightarrow> int \<Rightarrow> py_error + nat" where
  "py_position n i =
     (let j = (if i < 0 then int n + i else i)
      in if 0 \<le> j \<and> j < int n then Inr (nat j) else Inl IndexError)"

definition py_index :: "'a list \<Rightarrow> int \<Rightarrow> py_error + 'a" where
  "py_index xs i =
     (case py_position (length xs) i of Inl e \<Rightarrow> Inl e | Inr j \<Rightarrow> Inr (xs ! j))"

text \<open>
  Slices \<open>xs[i:j]\<close> and \<open>xs[i:]\<close> never raise: a negative bound counts from the end
  and every bound is clipped to \<open>0 .. len(xs)\<close>.
\<close>

definition py_bound :: "nat \<Rightarrow> int \<Rightarrow> nat" where
  "py_bound n i = (if i < 0 then nat (max 0 (int n + i)) else min (nat i) n)"

definition py_slice :: "'a list \<Rightarrow> int \<Rightarrow> int \<Rightarrow> 'a list" where
  "py_slice xs i j =
     (let a = py_bound (length xs) i; b = py_bound (length xs) j
      in take (b - a) (drop a xs))"

definition py_slice_from :: "'a list \<Rightarrow> int \<Rightarrow> 'a list" where
  "py_slice_from xs i = drop (py_bound (length xs) i) xs"

text \<open>\<open>str\<close> of an integer, as the f-string \<open>f'T{i + 1}'\<close> and \<open>str(makespan)\<close> use it.\<close>

fun str_nat :: "nat \<Rightarrow> string" where
  "str_nat n =
     (if n < 10 then [char_of (48 + n)]
      else str_nat (n div 10) @ [char_of (48 + n mod 10)])"

declare str_nat.simps [simp del]

definition py_str :: "int \<Rightarrow> string" where
  "py_str i = (if i < 0 then CHR ''-'' # str_nat (nat (- i)) else str_nat (nat i))"

section \<open>Reading an instance file\<close>

text \<open>
  A data file has a name (\<open>data_file.name\<close>), a path (\<open>str(data_file)\<close>) and, when it
  can be opened and decoded, its lines in order; \<open>None\<close> is a file that \<open>open\<close> fails on. \<open>readline\<close> returns the
  next line and the rest of the file, and the empty string at the end of the file.
\<close>

record data_file =
  name :: string
  path :: string
  lines :: "string list option"

fun readline :: "string list \<Rightarrow> string \<times> string list" where
  "readline [] = ([], [])"
| "readline (l # ls) = (l, ls)"

text \<open>What the script prints on standard output, in order.\<close>

datatype message =
    IgnoringBound string
  | SolvingModel string nat
  | OptimalFound string
  | FeasibleFound string
  | MakespanIs int
  | WarningNoObjective string
  | NoSolutionFound string
  | ErrorSolving string

record raw_instance =
  NB_TASKS :: int
  NB_RESOURCES :: int
  CAPACITIES :: "int list"
  TASKS :: "int list list"

definition int_row :: "string \<Rightarrow> py_error + int list" where
  "int_row l = traverse py_int (py_split l)"

text \<open>\<open>[[int(v) for v in file.readline().split()] for i in range(NB_TASKS)]\<close>\<close>

fun read_tasks :: "nat \<Rightarrow> string list \<Rightarrow> py_error + int list list" where
  "read_tasks 0 ls = Inr []"
| "read_tasks (Suc k) ls =
     (case int_row (fst (readline ls)) of
        Inl e \<Rightarrow> Inl e
      | Inr row \<Rightarrow>
          (case read_tasks k (snd (readline ls)) of
             Inl e \<Rightarrow> Inl e
           | Inr rows \<Rightarrow> Inr (row # rows)))"

text \<open>The header line: the two counts, and the note printed when a third token is there.\<close>

definition read_header :: "string \<Rightarrow> string list \<Rightarrow> message list \<times> (py_error + int \<times> int)" where
  "read_header nm first_line =
     (case py_index first_line 0 of
        Inl e \<Rightarrow> ([], Inl e)
      | Inr a \<Rightarrow>
     (case py_int a of
        Inl e \<Rightarrow> ([], Inl e)
      | Inr n \<Rightarrow>
     (case py_index first_line 1 of
        Inl e \<Rightarrow> ([], Inl e)
      | Inr b \<Rightarrow>
     (case py_int b of
        Inl e \<Rightarrow> ([], Inl e)
      | Inr r \<Rightarrow>
          ((if length first_line > 2 then [IgnoringBound nm] else []), Inr (n, r))))))"

definition read_body :: "int \<Rightarrow> int \<Rightarrow> string list \<Rightarrow> py_error + raw_instance" where
  "read_body n r ls =
     (case int_row (fst (readline ls)) of
        Inl e \<Rightarrow> Inl e
      | Inr caps \<Rightarrow>
          (case read_tasks (nat n) (snd (readline ls)) of
             Inl e \<Rightarrow> Inl e
           | Inr rows \<Rightarrow>
               Inr \<lparr>NB_TASKS = n, NB_RESOURCES = r, CAPACITIES = caps, TASKS = rows\<rparr>))"

definition read_data :: "data_file \<Rightarrow> message list \<times> (py_error + raw_instance)" where
  "read_data f =
     (case lines f of
        None \<Rightarrow> ([], Inl OSError)
      | Some ls \<Rightarrow>
          (case read_header (name f) (py_split (fst (readline ls))) of
             (out, Inl e) \<Rightarrow> (out, Inl e)
           | (out, Inr (n, r)) \<Rightarrow> (out, read_body n r (snd (readline ls)))))"

section \<open>Extracting durations, demands and successors\<close>

definition DURATIONS :: "raw_instance \<Rightarrow> py_error + int list" where
  "DURATIONS d = traverse (\<lambda>t. py_index (TASKS d ! t) 0) [0..<nat (NB_TASKS d)]"

definition DEMANDS :: "raw_instance \<Rightarrow> int list list" where
  "DEMANDS d = map (\<lambda>t. py_slice (TASKS d ! t) 1 (NB_RESOURCES d + 1)) [0..<nat (NB_TASKS d)]"

definition SUCCESSORS :: "raw_instance \<Rightarrow> int list list" where
  "SUCCESSORS d = map (\<lambda>t. py_slice_from (TASKS d ! t) (NB_RESOURCES d + 2)) [0..<nat (NB_TASKS d)]"

section \<open>The constraint model\<close>

text \<open>
  The model handed to the library, as the script's calls build it: one interval
  variable per task (\<open>interval_var(name=f'T{i + 1}', size=DURATIONS[i])\<close>), the
  constraints given to \<open>mdl.add\<close>, and the objective \<open>minimize(max(end_of(t) for t in tasks))\<close>.
  A task is referred to by its position in \<open>tasks\<close>. \<open>SumPulseLe ps c\<close> is
  \<open>sum(pulse(tasks[t], h) for (t, h) in ps) <= c\<close>; with no pulse the sum is the
  integer 0. \<open>range\<close> on a Python integer \<open>n\<close> runs over \<open>0 .. n - 1\<close> and is empty
  for \<open>n \<le> 0\<close>.
\<close>

record interval_var =
  iv_name :: string
  iv_size :: int

datatype constraint =
    EndBeforeStart nat nat
  | SumPulseLe "(nat \<times> int) list" int

record cpo_model =
  intervals :: "interval_var list"
  constraints :: "constraint list"
  minimize_max_end_of :: "nat list"

definition tasks :: "raw_instance \<Rightarrow> py_error + interval_var list" where
  "tasks d =
     (case DURATIONS d of
        Inl e \<Rightarrow> Inl e
      | Inr ds \<Rightarrow>
          Inr (map (\<lambda>i. \<lparr>iv_name = CHR ''T'' # py_str (int i + 1), iv_size = ds ! i\<rparr>)
                 [0..<nat (NB_TASKS d)]))"

text \<open>
  \<open>end_before_start(tasks[t], tasks[s - 1]) for t in range(NB_TASKS) for s in SUCCESSORS[t]\<close>
\<close>

definition successor_edge :: "raw_instance \<Rightarrow> nat \<Rightarrow> int \<Rightarrow> py_error + constraint" where
  "successor_edge d t s =
     (case py_position (nat (NB_TASKS d)) (s - 1) of
        Inl e \<Rightarrow> Inl e
      | Inr j \<Rightarrow> Inr (EndBeforeStart t j))"

definition precedence_constraints :: "raw_instance \<Rightarrow> py_error + constraint list" where
  "precedence_constraints d =
     (case traverse (\<lambda>t. traverse (successor_edge d t) (SUCCESSORS d ! t)) [0..<nat (NB_TASKS d)] of
        Inl e \<Rightarrow> Inl e
      | Inr css \<Rightarrow> Inr (concat css))"

text \<open>
  \<open>sum(pulse(tasks[t], DEMANDS[t][r]) for t in range(NB_TASKS) if DEMANDS[t][r] > 0) <= CAPACITIES[r]
  for r in range(NB_RESOURCES)\<close>
\<close>

definition pulse_of :: "raw_instance \<Rightarrow> nat \<Rightarrow> nat \<Rightarrow> py_error + (nat \<times> int) list" where
  "pulse_of d r t =
     (case py_index (DEMANDS d ! t) (int r) of
        Inl e \<Rightarrow> Inl e
      | Inr h \<Rightarrow> Inr (if h > 0 then [(t, h)] else []))"

definition pulses :: "raw_instance \<Rightarrow> nat \<Rightarrow> py_error + (nat \<times> int) list" where
  "pulses d r =
     (case traverse (pulse_of d r) [0..<nat (NB_TASKS d)] of
        Inl e \<Rightarrow> Inl e
      | Inr pss \<Rightarrow> Inr (concat pss))"

definition capacity_constraint :: "raw_instance \<Rightarrow> nat \<Rightarrow> py_error + constraint" where
  "capacity_constraint d r =
     (case pulses d r of
        Inl e \<Rightarrow> Inl e
      | Inr ps \<Rightarrow>
          (case py_index (CAPACITIES d) (int r) of
             Inl e \<Rightarrow> Inl e
           | Inr c \<Rightarrow> Inr (SumPulseLe ps c)))"

definition capacity_constraints :: "raw_instance \<Rightarrow> py_error + constraint list" where
  "capacity_constraints d = traverse (capacity_constraint d) [0..<nat (NB_RESOURCES d)]"

definition build_model :: "raw_instance \<Rightarrow> py_error + cpo_model" where
  "build_model d =
     (case tasks d of
        Inl e \<Rightarrow> Inl e
      | Inr ivs \<Rightarrow>
     (case precedence_constraints d of
        Inl e \<Rightarrow> Inl e
      | Inr pcs \<Rightarrow>
     (case capacity_constraints d of
        Inl e \<Rightarrow> Inl e
      | Inr ccs \<Rightarrow>
          Inr \<lparr>intervals = ivs, constraints = pcs @ ccs,
               minimize_max_end_of = [0..<length ivs]\<rparr>)))"

section \<open>The library and the solve operation\<close>

text \<open>
  The constraint programming library is not part of the script; it is a parameter.
  Given the model and the time limit it either raises while the model is put together
  (before the script prints that it is solving), raises in \<open>mdl.solve\<close>, or returns a
  result object, of which the script reads its truth value (\<open>is_solution\<close>),
  \<open>get_solve_status()\<close> and \<open>get_objective_values()\<close>.
\<close>

record solve_result =
  is_solution :: bool
  get_solve_status :: string
  get_objective_values :: "int list option"

datatype cp_outcome = BuildRaises | SolveRaises | Solved solve_result

type_synonym cp_library = "cpo_model \<Rightarrow> nat \<Rightarrow> cp_outcome"

definition TIME_PER_INSTANCE :: nat where
  "TIME_PER_INSTANCE = 900"

text \<open>Lines 85 to 110: what is returned and printed for a result object.\<close>

definition objective_value_of :: "solve_result \<Rightarrow> int option" where
  "objective_value_of res =
     (case get_objective_values res of
        None \<Rightarrow> None
      | Some [] \<Rightarrow> None
      | Some (v # vs) \<Rightarrow> Some v)"

definition classify :: "string \<Rightarrow> solve_result \<Rightarrow> message list \<times> int option \<times> string" where
  "classify nm res =
     (if is_solution res
      then
        (let objective_value = objective_value_of res
         in ((if get_solve_status res = ''Optimal'' then [OptimalFound nm] else [FeasibleFound nm])
             @ (case objective_value of
                  Some v \<Rightarrow> [MakespanIs v]
                | None \<Rightarrow> [WarningNoObjective nm]),
             objective_value,
             (if get_solve_status res = ''Optimal'' then ''optimal'' else ''feasible'')))
      else ([NoSolutionFound nm], None, ''unknown''))"

text \<open>
  \<open>solve_rcpsp\<close>: the clock is read once at entry and once more on every path, after
  \<open>mdl.solve\<close> or in the exception handler; \<open>clock\<close> holds the two readings. The result
  is what is printed and the returned triple \<open>(makespan, status, solve_time)\<close>. This is
  the function on a standard output that takes every line and with a library call that
  is not interrupted; \<open>solve_rcpsp_on\<close> below drops both assumptions.
\<close>

definition solve_rcpsp ::
  "cp_library \<Rightarrow> real \<times> real \<Rightarrow> data_file \<Rightarrow> message list \<times> int option \<times> string \<times> real" where
  "solve_rcpsp cp clock f =
     (let solve_time = snd clock - fst clock;
          failed = (\<lambda>out. (out @ [ErrorSolving (path f)], None, ''error'', solve_time))
      in case read_data f of
           (out, Inl e) \<Rightarrow> failed out
         | (out, Inr d) \<Rightarrow>
             (case build_model d of
                Inl e \<Rightarrow> failed out
              | Inr m \<Rightarrow>
                  (case cp m TIME_PER_INSTANCE of
                     BuildRaises \<Rightarrow> failed out
                   | SolveRaises \<Rightarrow> failed (out @ [SolvingModel (name f) TIME_PER_INSTANCE])
                   | Solved res \<Rightarrow>
                       (case classify (name f) res of
                          (out2, objective_value, status) \<Rightarrow>
                            (out @ [SolvingModel (name f) TIME_PER_INSTANCE] @ out2,
                             objective_value, status, solve_time)))))"

definition makespan_of :: "message list \<times> int option \<times> string \<times> real \<Rightarrow> int option" where
  "makespan_of res = fst (snd res)"

definition status_of :: "message list \<times> int option \<times> string \<times> real \<Rightarrow> string" where
  "status_of res = fst (snd (snd res))"

definition solve_time_of :: "message list \<times> int option \<times> string \<times> real \<Rightarrow> real" where
  "solve_time_of res = snd (snd (snd res))"

definition printed :: "message list \<times> int option \<times> string \<times> real \<Rightarrow> message list" where
  "printed res = fst res"

text \<open>The model the script builds for a file, when it gets that far.\<close>

definition model_of :: "data_file \<Rightarrow> py_error + cpo_model" where
  "model_of f =
     (case snd (read_data f) of Inl e \<Rightarrow> Inl e | Inr d \<Rightarrow> build_model d)"

section \<open>Meaning of the constraints\<close>

text \<open>
  A schedule gives every interval variable its start; the variable has a fixed size and
  is always present, so it ends at start plus size and covers the instants from its
  start up to, not including, its end. \<open>end_before_start(a, b)\<close> holds when \<open>a\<close> ends no
  later than \<open>b\<close> starts; a pulse contributes its height at the instants its interval
  covers, and the sum of pulses stays at or below the bound at every instant.
\<close>

definition end_time :: "cpo_model \<Rightarrow> (nat \<Rightarrow> int) \<Rightarrow> nat \<Rightarrow> int" where
  "end_time m st i = st i + iv_size (intervals m ! i)"

definition covers :: "cpo_model \<Rightarrow> (nat \<Rightarrow> int) \<Rightarrow> nat \<Rightarrow> int \<Rightarrow> bool" where
  "covers m st i u = (st i \<le> u \<and> u < end_time m st i)"

definition usage :: "cpo_model \<Rightarrow> (nat \<Rightarrow> int) \<Rightarrow> (nat \<times> int) list \<Rightarrow> int \<Rightarrow> int" where
  "usage m st ps u = sum_list (map (\<lambda>(i, h). if covers m st i u then h else 0) ps)"

fun holds :: "cpo_model \<Rightarrow> (nat \<Rightarrow> int) \<Rightarrow> constraint \<Rightarrow> bool" where
  "holds m st (EndBeforeStart a b) = (end_time m st a \<le> st b)"
| "holds m st (SumPulseLe ps c) = (\<forall>u. usage m st ps u \<le> c)"

definition satisfies :: "cpo_model \<Rightarrow> (nat \<Rightarrow> int) \<Rightarrow> bool" where
  "satisfies m st = list_all (holds m st) (constraints m)"

section \<open>Prints that fail and calls that are interrupted\<close>

text \<open>
  A \<open>print\<close> raises when standard output refuses the line: a name it cannot encode, a
  closed pipe. \<open>console msg\<close> tells whether the line \<open>msg\<close> is taken. An exception of
  the \<open>try\<close> block that is an \<open>Exception\<close> is caught at line 114, where the handler
  prints its own line and returns; the traceback goes to standard error. The call of
  \<open>mdl.solve\<close> can also be left by something that is no \<open>Exception\<close>, a
  \<open>KeyboardInterrupt\<close>, which the handler does not catch. A call of the function ends
  in a returned value, in an \<open>Exception\<close> that leaves it, or in another exception that
  leaves it.
\<close>

datatype cp_call = Ends cp_outcome | Interrupted

datatype 'a call = Returns 'a | RaisesException | RaisesOther

definition never_interrupted :: "cp_library \<Rightarrow> cpo_model \<Rightarrow> nat \<Rightarrow> cp_call" where
  "never_interrupted cp m limit = Ends (cp m limit)"

text \<open>Lines 38 to 112, the \<open>try\<close> block, with every \<open>print\<close> in its place.\<close>

definition try_block_on ::
  "(message \<Rightarrow> bool) \<Rightarrow> (cpo_model \<Rightarrow> nat \<Rightarrow> cp_call) \<Rightarrow> data_file \<Rightarrow> (int option \<times> string) call" where
  "try_block_on console cp f =
     (case lines f of
        None \<Rightarrow> RaisesException
      | Some ls \<Rightarrow>
     (case read_header (name f) (py_split (fst (readline ls))) of
        (out, Inl e) \<Rightarrow> RaisesException
      | (out, Inr (n, r)) \<Rightarrow>
          if \<not> list_all console out then RaisesException
          else
     (case read_body n r (snd (readline ls)) of
        Inl e \<Rightarrow> RaisesException
      | Inr d \<Rightarrow>
     (case build_model d of
        Inl e \<Rightarrow> RaisesException
      | Inr m \<Rightarrow>
          if cp m TIME_PER_INSTANCE = Ends BuildRaises then RaisesException
          else if \<not> console (SolvingModel (name f) TIME_PER_INSTANCE) then RaisesException
          else
     (case cp m TIME_PER_INSTANCE of
        Interrupted \<Rightarrow> RaisesOther
      | Ends BuildRaises \<Rightarrow> RaisesException
      | Ends SolveRaises \<Rightarrow> RaisesException
      | Ends (Solved res) \<Rightarrow>
          (case classify (name f) res of
             (out2, objective_value, status) \<Rightarrow>
               if list_all console out2 then Returns (objective_value, status)
               else RaisesException))))))"

text \<open>
  \<open>solve_rcpsp\<close> with the handler of lines 114 to 119: its \<open>print\<close> of the path comes
  before the \<open>return\<close>.
\<close>

definition solve_rcpsp_on ::
  "(message \<Rightarrow> bool) \<Rightarrow> (cpo_model \<Rightarrow> nat \<Rightarrow> cp_call) \<Rightarrow> real \<times> real \<Rightarrow> data_file \<Rightarrow>
     (int option \<times> string \<times> real) call" where
  "solve_rcpsp_on console cp clock f =
     (let solve_time = snd clock - fst clock
      in case try_block_on console cp f of
           Returns (objective_value, status) \<Rightarrow> Returns (objective_value, status, solve_time)
         | RaisesOther \<Rightarrow> RaisesOther
         | RaisesException \<Rightarrow>
             if console (ErrorSolving (path f)) then Returns (None, ''error'', solve_time)
             else RaisesException)"

section \<open>The batch loop\<close>


datatype step = Continues "string list list" | Leaves "string list list"







definition after_rows :: "string list list \<Rightarrow> step \<Rightarrow> step" where
  "after_rows written s =
     (case s of
        Continues rows \<Rightarrow> Continues (written @ rows)
      | Leaves rows \<Rightarrow> Leaves (written @ rows))"



text \<open>
  What the \<open>try\<close> block of \<open>solve_rcpsp\<close> meets: an exception, raised by the script or by
  the library, or the result object of \<open>mdl.solve\<close>.
\<close>

definition try_block :: "cp_library \<Rightarrow> data_file \<Rightarrow> py_error + solve_result" where
  "try_block cp f =
     (case model_of f of
        Inl e \<Rightarrow> Inl e
      | Inr m \<Rightarrow>
          (case cp m TIME_PER_INSTANCE of
             BuildRaises \<Rightarrow> Inl LibraryError
           | SolveRaises \<Rightarrow> Inl LibraryError
           | Solved res \<Rightarrow> Inr res))"

section \<open>Closed forms used in the statements\<close>

text \<open>
  The text the script reads for task \<open>t + 1\<close>: the header and the capacities take the
  first two calls of \<open>readline\<close>, the task lines follow.
\<close>

definition task_line :: "string list \<Rightarrow> nat \<Rightarrow> string" where
  "task_line ls t = fst (readline (drop (t + 2) ls))"

text \<open>
  The pulses of resource \<open>r\<close> when no index is out of range: the tasks with a positive
  demand, in task order, each with its demand.
\<close>

definition demand_pulses :: "raw_instance \<Rightarrow> nat \<Rightarrow> (nat \<times> int) list" where
  "demand_pulses d r =
     concat (map (\<lambda>t. if DEMANDS d ! t ! r > 0 then [(t, DEMANDS d ! t ! r)] else [])
               [0..<nat (NB_TASKS d)])"

text \<open>
  The position \<open>tasks[s - 1]\<close> denotes when it does not raise: ids below 1 count from
  the end of the list.
\<close>

definition wrapped_position :: "raw_instance \<Rightarrow> int \<Rightarrow> nat" where
  "wrapped_position d s = nat (if s < 1 then NB_TASKS d + s - 1 else s - 1)"

section \<open>Example instances\<close>

text \<open>
  Two tasks of durations 3 and 2 on one resource of capacity 1, each demanding 1, the
  first before the second; and a library that answers with a proven optimum of 5.
\<close>

definition two_tasks :: data_file where
  "two_tasks =
     \<lparr>name = ''two.data'', path = ''data/two.data'',
      lines = Some [''2 1'', ''1'', ''3 1 1 2'', ''2 1 0'']\<rparr>"

definition optimum_5 :: cp_library where
  "optimum_5 =
     (\<lambda>m limit. Solved \<lparr>is_solution = True, get_solve_status = ''Optimal'',
                          get_objective_values = Some [5]\<rparr>)"








text \<open>What the script reads from \<open>two_tasks\<close>, the model it builds, and a schedule for it.\<close>

definition two_tasks_data :: raw_instance where
  "two_tasks_data =
     \<lparr>NB_TASKS = 2, NB_RESOURCES = 1, CAPACITIES = [1], TASKS = [[3, 1, 1, 2], [2, 1, 0]]\<rparr>"

definition two_tasks_model :: cpo_model where
  "two_tasks_model =
     \<lparr>intervals = [\<lparr>iv_name = ''T1'', iv_size = 3\<rparr>, \<lparr>iv_name = ''T2'', iv_size = 2\<rparr>],
      constraints = [EndBeforeStart 0 1, SumPulseLe [(0, 1), (1, 1)] 1],
      minimize_max_end_of = [0, 1]\<rparr>"

definition one_after_other :: "nat \<Rightarrow> int" where
  "one_after_other i = (if i = 0 then 0 else 3)"


text \<open>The same instance with a bound as third token of the header.\<close>

definition two_tasks_bound :: data_file where
  "two_tasks_bound =
     \<lparr>name = ''two.data'', path = ''data/two.data'',
      lines = Some [''2 1 7'', ''1'', ''3 1 1 2'', ''2 1 0'']\<rparr>"


text \<open>
  One task of duration 1 that demands 3 of a resource of capacity 2, and a library that
  finds the model infeasible.
\<close>

definition over_capacity :: data_file where
  "over_capacity =
     \<lparr>name = ''over.data'', path = ''data/over.data'',
      lines = Some [''1 1'', ''2'', ''1 3 0'']\<rparr>"

definition over_capacity_data :: raw_instance where
  "over_capacity_data = \<lparr>NB_TASKS = 1, NB_RESOURCES = 1, CAPACITIES = [2], TASKS = [[1, 3, 0]]\<rparr>"

definition over_capacity_model :: cpo_model where
  "over_capacity_model =
     \<lparr>intervals = [\<lparr>iv_name = ''T1'', iv_size = 1\<rparr>],
      constraints = [SumPulseLe [(0, 3)] 2],
      minimize_max_end_of = [0]\<rparr>"

definition no_solution :: cp_library where
  "no_solution =
     (\<lambda>m limit. Solved \<lparr>is_solution = False, get_solve_status = ''Infeasible'',
                          get_objective_values = None\<rparr>)"


text \<open>The two-task instance with successor id 0, and with successor id 3, on the first task.\<close>

definition zero_successor :: data_file where
  "zero_successor =
     \<lparr>name = ''zero.data'', path = ''data/zero.data'',
      lines = Some [''2 1'', ''1'', ''3 1 1 0'', ''2 1 0'']\<rparr>"

definition zero_successor_data :: raw_instance where
  "zero_successor_data =
     \<lparr>NB_TASKS = 2, NB_RESOURCES = 1, CAPACITIES = [1], TASKS = [[3, 1, 1, 0], [2, 1, 0]]\<rparr>"

definition third_successor :: data_file where
  "third_successor =
     \<lparr>name = ''third.data'', path = ''data/third.data'',
      lines = Some [''2 1'', ''1'', ''3 1 1 3'', ''2 1 0'']\<rparr>"

definition third_successor_data :: raw_instance where
  "third_successor_data =
     \<lparr>NB_TASKS = 2, NB_RESOURCES = 1, CAPACITIES = [1], TASKS = [[3, 1, 1, 3], [2, 1, 0]]\<rparr>"








section \<open>Auxiliary facts\<close>

lemma traverse_Inr_iff:
  "traverse f xs = Inr ys \<longleftrightarrow> list_all2 (\<lambda>x y. f x = Inr y) xs ys"
proof (induction xs arbitrary: ys)
  case Nil
  then show ?case by auto
next
  case (Cons x xs)
  show ?case
    by (cases ys) (auto simp: Cons.IH [symmetric] split: sum.splits)
qed

lemma traverse_Inr_length: "traverse f xs = Inr ys \<Longrightarrow> length ys = length xs"
  by (simp add: traverse_Inr_iff list_all2_lengthD)

lemma traverse_Inr_nth:
  "traverse f xs = Inr ys \<Longrightarrow> i < length xs \<Longrightarrow> f (xs ! i) = Inr (ys ! i)"
  by (auto simp: traverse_Inr_iff dest: list_all2_nthD)

lemma traverse_map_total:
  "(\<And>x. x \<in> set xs \<Longrightarrow> f x = Inr (g x)) \<Longrightarrow> traverse f xs = Inr (map g xs)"
  by (induction xs) auto

lemma traverse_Inr_map:
  "traverse f xs = Inr ys \<Longrightarrow> (\<And>x. x \<in> set xs \<Longrightarrow> f x = Inr (g x)) \<Longrightarrow> ys = map g xs"
  using traverse_map_total [of xs f g] by simp

lemma traverse_Inl_member:
  "x \<in> set xs \<Longrightarrow> f x = Inl e \<Longrightarrow> \<exists>e'. traverse f xs = Inl e'"
  by (induction xs) (auto split: sum.splits)

lemma traverse_cong:
  "(\<And>x. x \<in> set xs \<Longrightarrow> f x = g x) \<Longrightarrow> traverse f xs = traverse g xs"
  by (induction xs) (auto split: sum.splits)

lemma py_position_Inr:
  "py_position n i = Inr j \<longleftrightarrow>
     - int n \<le> i \<and> i < int n \<and> j = nat (if i < 0 then int n + i else i)"
  by (auto simp: py_position_def Let_def)

lemma py_position_Inl:
  "py_position n i = Inl e \<longleftrightarrow> (i < - int n \<or> int n \<le> i) \<and> e = IndexError"
  by (auto simp: py_position_def Let_def)

lemma py_index_Inr:
  "py_index xs i = Inr v \<longleftrightarrow>
     - int (length xs) \<le> i \<and> i < int (length xs)
     \<and> v = xs ! nat (if i < 0 then int (length xs) + i else i)"
  by (auto simp: py_index_def py_position_Inr split: sum.splits)
     (auto simp: py_position_def Let_def split: if_splits)

lemma py_index_nat: "py_index xs (int r) = Inr v \<longleftrightarrow> r < length xs \<and> v = xs ! r"
  by (auto simp: py_index_Inr)

lemma build_model_Inr:
  assumes "build_model d = Inr m"
  obtains ds pcs ccs where
    "DURATIONS d = Inr ds" "precedence_constraints d = Inr pcs"
    "capacity_constraints d = Inr ccs"
    "intervals m =
       map (\<lambda>i. \<lparr>iv_name = CHR ''T'' # py_str (int i + 1), iv_size = ds ! i\<rparr>)
         [0..<nat (NB_TASKS d)]"
    "constraints m = pcs @ ccs"
  using assms
  by (auto simp: build_model_def tasks_def split: sum.splits)

lemma DURATIONS_length: "DURATIONS d = Inr ds \<Longrightarrow> length ds = nat (NB_TASKS d)"
  by (auto simp: DURATIONS_def dest: traverse_Inr_length)

lemma solve_rcpsp_raised:
  "try_block cp f = Inl e \<Longrightarrow>
   snd (solve_rcpsp cp clock f) = (None, ''error'', snd clock - fst clock)"
  by (auto simp: try_block_def model_of_def solve_rcpsp_def Let_def
           split: sum.splits prod.splits cp_outcome.splits)

lemma solve_rcpsp_returned:
  "try_block cp f = Inr res \<Longrightarrow>
   snd (solve_rcpsp cp clock f) =
     (fst (snd (classify (name f) res)), snd (snd (classify (name f) res)),
      snd clock - fst clock)"
  by (auto simp: try_block_def model_of_def solve_rcpsp_def Let_def
           split: sum.splits prod.splits cp_outcome.splits)

lemma classify_status:
  "snd (snd (classify nm res)) =
     (if is_solution res
      then (if get_solve_status res = ''Optimal'' then ''optimal'' else ''feasible'')
      else ''unknown'')"
  by (simp add: classify_def Let_def)

lemma classify_makespan:
  "fst (snd (classify nm res)) = (if is_solution res then objective_value_of res else None)"
  by (simp add: classify_def Let_def)

lemma after_rows_assoc [simp]:
  "after_rows xs (after_rows ys s) = after_rows (xs @ ys) s"
  by (cases s) (simp_all add: after_rows_def)

lemma after_rows_Nil [simp]: "after_rows [] s = s"
  by (cases s) (simp_all add: after_rows_def)





text \<open>
  On a standard output that takes every line and with a call that is not interrupted,
  \<open>solve_rcpsp_on\<close> returns what \<open>solve_rcpsp\<close> returns.
\<close>

lemma solve_rcpsp_on_quiet:
  "solve_rcpsp_on (\<lambda>msg. True) (never_interrupted cp) clock f =
     Returns (snd (solve_rcpsp cp clock f))"
  by (cases "read_data f")
     (auto simp: solve_rcpsp_on_def try_block_on_def solve_rcpsp_def read_data_def
             never_interrupted_def Let_def list_all_iff
           split: option.splits prod.splits sum.splits cp_outcome.splits)

lemma snd_readline: "snd (readline ls) = drop 1 ls"
  by (cases ls) simp_all

lemma read_tasks_length: "read_tasks k ls = Inr rows \<Longrightarrow> length rows = k"
  by (induction k arbitrary: ls rows) (auto split: sum.splits)

lemma read_tasks_nth:
  "read_tasks k ls = Inr rows \<Longrightarrow> t < k \<Longrightarrow> int_row (fst (readline (drop t ls))) = Inr (rows ! t)"
proof (induction k arbitrary: ls rows t)
  case 0
  then show ?case by simp
next
  case (Suc k)
  from Suc.prems(1) obtain row rest where
    row: "int_row (fst (readline ls)) = Inr row" and
    rest: "read_tasks k (snd (readline ls)) = Inr rest" and
    rows: "rows = row # rest"
    by (auto split: sum.splits)
  show ?case
  proof (cases t)
    case 0
    with row rows show ?thesis by simp
  next
    case (Suc u)
    with Suc.prems(2) have "u < k" by simp
    from Suc.IH [OF rest this] have "int_row (fst (readline (drop u (drop 1 ls)))) = Inr (rest ! u)"
      by (simp add: snd_readline)
    with Suc rows show ?thesis by simp
  qed
qed

lemma read_data_Inr:
  assumes "snd (read_data f) = Inr d"
  obtains ls where
    "lines f = Some ls"
    "snd (read_header (name f) (py_split (fst (readline ls)))) = Inr (NB_TASKS d, NB_RESOURCES d)"
    "int_row (fst (readline (drop 1 ls))) = Inr (CAPACITIES d)"
    "read_tasks (nat (NB_TASKS d)) (drop 2 ls) = Inr (TASKS d)"
proof -
  from assms obtain ls n r where
    1: "lines f = Some ls" and
    2: "snd (read_header (name f) (py_split (fst (readline ls)))) = Inr (n, r)" and
    3: "read_body n r (drop 1 ls) = Inr d"
    by (auto simp: read_data_def snd_readline split: option.splits prod.splits sum.splits)
  from 3 obtain caps rows where
    4: "int_row (fst (readline (drop 1 ls))) = Inr caps" and
    5: "read_tasks (nat n) (drop 1 (drop 1 ls)) = Inr rows" and
    6: "d = \<lparr>NB_TASKS = n, NB_RESOURCES = r, CAPACITIES = caps, TASKS = rows\<rparr>"
    by (auto simp: read_body_def snd_readline split: sum.splits)
  from 5 have "read_tasks (nat n) (drop 2 ls) = Inr rows"
    by (simp add: numeral_2_eq_2)
  with 1 2 4 6 that show thesis
    by simp
qed

lemma read_data_task_row:
  assumes "lines f = Some ls" "snd (read_data f) = Inr d" "t < nat (NB_TASKS d)"
  shows "int_row (task_line ls t) = Inr (TASKS d ! t)"
proof -
  from assms(2) obtain ls' where
    ls': "lines f = Some ls'" and rt: "read_tasks (nat (NB_TASKS d)) (drop 2 ls') = Inr (TASKS d)"
    by (rule read_data_Inr)
  from ls' assms(1) have "ls' = ls" by simp
  with read_tasks_nth [OF rt assms(3)] show ?thesis
    by (simp add: task_line_def add.commute)
qed

lemma traverse_row_parts:
  assumes "traverse f (a # bs @ c # ss) = Inr row"
  obtains a' bs' c' ss' where
    "row = a' # bs' @ c' # ss'" "f a = Inr a'" "traverse f bs = Inr bs'"
    "f c = Inr c'" "traverse f ss = Inr ss'"
  using assms unfolding traverse_Inr_iff
  by (auto simp: list_all2_Cons1 list_all2_append1)

lemma row_slices:
  assumes "length bs = nat r" "0 \<le> r"
  shows "py_index (a # bs @ c # ss) 0 = Inr a"
    and "py_slice (a # bs @ c # ss) 1 (r + 1) = bs"
    and "py_slice_from (a # bs @ c # ss) (r + 2) = ss"
  using assms
  by (auto simp: py_index_Inr py_slice_def py_slice_from_def py_bound_def Let_def nat_add_distrib)

lemma DURATIONS_nth:
  "DURATIONS d = Inr ds \<Longrightarrow> t < nat (NB_TASKS d) \<Longrightarrow> py_index (TASKS d ! t) 0 = Inr (ds ! t)"
  using traverse_Inr_nth [of "\<lambda>t. py_index (TASKS d ! t) 0" "[0..<nat (NB_TASKS d)]" ds t]
  by (simp add: DURATIONS_def)

lemma DEMANDS_nth:
  "t < nat (NB_TASKS d) \<Longrightarrow> DEMANDS d ! t = py_slice (TASKS d ! t) 1 (NB_RESOURCES d + 1)"
  by (simp add: DEMANDS_def)

lemma SUCCESSORS_nth:
  "t < nat (NB_TASKS d) \<Longrightarrow> SUCCESSORS d ! t = py_slice_from (TASKS d ! t) (NB_RESOURCES d + 2)"
  by (simp add: SUCCESSORS_def)

lemma successor_edge_in_range:
  "1 \<le> s \<Longrightarrow> s \<le> NB_TASKS d \<Longrightarrow> successor_edge d t s = Inr (EndBeforeStart t (nat s - 1))"
  by (auto simp: successor_edge_def py_position_def Let_def nat_diff_distrib split: sum.splits)

lemma tasks_name:
  "tasks d = Inr ivs \<Longrightarrow> 1 \<le> s \<Longrightarrow> s \<le> NB_TASKS d \<Longrightarrow>
   iv_name (ivs ! (nat s - 1)) = CHR ''T'' # py_str s"
  by (auto simp: tasks_def split: sum.splits)

lemma read_data_Some:
  "lines f = Some ls \<Longrightarrow>
   read_data f =
     (case read_header (name f) (py_split (fst (readline ls))) of
        (out, Inl e) \<Rightarrow> (out, Inl e)
      | (out, Inr (n, r)) \<Rightarrow> (out, read_body n r (tl ls)))"
  by (cases ls) (auto simp: read_data_def split: prod.splits sum.splits)

lemma read_header_two:
  "read_header nm (a # b # x) =
     (case py_int a of
        Inl e \<Rightarrow> ([], Inl e)
      | Inr n \<Rightarrow>
          (case py_int b of
             Inl e \<Rightarrow> ([], Inl e)
           | Inr r \<Rightarrow> ((if x \<noteq> [] then [IgnoringBound nm] else []), Inr (n, r))))"
  by (simp add: read_header_def py_index_def py_position_def split: sum.splits)

lemma solve_rcpsp_snd_cong:
  "snd (read_data f') = snd (read_data f) \<Longrightarrow>
   name f' = name f \<Longrightarrow>
   snd (solve_rcpsp cp clock f') = snd (solve_rcpsp cp clock f)"
  by (cases "read_data f"; cases "read_data f'")
     (auto simp: solve_rcpsp_def Let_def split: sum.splits cp_outcome.splits prod.splits)

lemma printed_solve_rcpsp:
  "IgnoringBound nm \<in> set (printed (solve_rcpsp cp clock f)) \<longleftrightarrow>
   IgnoringBound nm \<in> set (fst (read_data f))"
  by (cases "read_data f")
     (auto simp: solve_rcpsp_def printed_def classify_def Let_def
           split: sum.splits cp_outcome.splits prod.splits option.splits)

lemma read_tasks_update:
  "read_tasks k xs = Inr rows \<Longrightarrow> t < k \<Longrightarrow> t < length xs \<Longrightarrow> int_row l' = Inr row' \<Longrightarrow>
   read_tasks k (xs[t := l']) = Inr (rows[t := row'])"
proof (induction k arbitrary: xs rows t)
  case 0
  then show ?case by simp
next
  case (Suc k)
  from Suc.prems(3) obtain x xs' where xs: "xs = x # xs'"
    by (cases xs) auto
  from Suc.prems(1) xs obtain row rest where
    row: "int_row x = Inr row" and rest: "read_tasks k xs' = Inr rest" and rows: "rows = row # rest"
    by (auto split: sum.splits)
  show ?case
  proof (cases t)
    case 0
    with xs rows rest Suc.prems(4) show ?thesis by simp
  next
    case (Suc u)
    with Suc.prems(2,3) xs have "u < k" "u < length xs'" by simp_all
    from Suc.IH [OF rest this Suc.prems(4)] Suc xs rows row show ?thesis by simp
  qed
qed

lemma build_model_cong:
  assumes "NB_TASKS d' = NB_TASKS d" "NB_RESOURCES d' = NB_RESOURCES d"
    "CAPACITIES d' = CAPACITIES d" "DURATIONS d' = DURATIONS d"
    "DEMANDS d' = DEMANDS d" "SUCCESSORS d' = SUCCESSORS d"
  shows "build_model d' = build_model d"
proof -
  have 1: "tasks d' = tasks d"
    using assms by (simp add: tasks_def cong: sum.case_cong)
  have "successor_edge d' = successor_edge d"
    using assms by (intro ext) (simp add: successor_edge_def)
  then have 2: "precedence_constraints d' = precedence_constraints d"
    using assms by (simp add: precedence_constraints_def cong: sum.case_cong)
  have "pulse_of d' = pulse_of d"
    using assms by (intro ext) (simp add: pulse_of_def)
  then have "pulses d' = pulses d"
    using assms by (intro ext) (simp add: pulses_def cong: sum.case_cong)
  then have "capacity_constraint d' = capacity_constraint d"
    using assms by (intro ext) (simp add: capacity_constraint_def cong: sum.case_cong)
  then have 3: "capacity_constraints d' = capacity_constraints d"
    using assms by (simp add: capacity_constraints_def)
  from 1 2 3 show ?thesis
    by (simp add: build_model_def cong: sum.case_cong)
qed

lemma solve_rcpsp_eqI:
  assumes "fst (read_data f') = fst (read_data f)" "model_of f' = model_of f"
    "name f' = name f" "path f' = path f"
  shows "solve_rcpsp cp clock f' = solve_rcpsp cp clock f"
proof -
  obtain out r where r: "read_data f = (out, r)"
    by (cases "read_data f")
  with assms(1) obtain r' where r': "read_data f' = (out, r')"
    by (cases "read_data f'") simp
  from assms(2) r r' have "(case r' of Inl e \<Rightarrow> Inl e | Inr d \<Rightarrow> build_model d)
      = (case r of Inl e \<Rightarrow> Inl e | Inr d \<Rightarrow> build_model d)"
    by (simp add: model_of_def)
  then show ?thesis
    unfolding solve_rcpsp_def r r' using assms(3,4)
    by (cases r; cases r') (auto simp: Let_def split: sum.splits cong: cp_outcome.case_cong)
qed

lemma task_line_present:
  assumes "py_split (task_line ls t) \<noteq> []"
  shows "t + 2 < length ls \<and> task_line ls t = ls ! (t + 2)"
proof (cases "t + 2 < length ls")
  case True
  then obtain x xs where "drop (t + 2) ls = x # xs"
    by (cases "drop (t + 2) ls") auto
  moreover from this have "x = ls ! (t + 2)"
    using True by (metis nth_via_drop)
  ultimately show ?thesis
    using True by (simp add: task_line_def)
next
  case False
  then have "task_line ls t = []"
    by (simp add: task_line_def)
  with assms show ?thesis
    by (simp add: py_split_def)
qed

lemma precedence_constraints_valid:
  assumes "\<forall>t<nat (NB_TASKS d). \<forall>s\<in>set (SUCCESSORS d ! t). 1 \<le> s \<and> s \<le> NB_TASKS d"
  shows "precedence_constraints d =
           Inr (concat (map (\<lambda>t. map (\<lambda>s. EndBeforeStart t (nat s - 1)) (SUCCESSORS d ! t))
                          [0..<nat (NB_TASKS d)]))"
proof -
  have "traverse (\<lambda>t. traverse (successor_edge d t) (SUCCESSORS d ! t)) [0..<nat (NB_TASKS d)] =
          Inr (map (\<lambda>t. map (\<lambda>s. EndBeforeStart t (nat s - 1)) (SUCCESSORS d ! t))
                 [0..<nat (NB_TASKS d)])"
  proof (rule traverse_map_total)
    fix t assume "t \<in> set [0..<nat (NB_TASKS d)]"
    then have t: "t < nat (NB_TASKS d)" by simp
    show "traverse (successor_edge d t) (SUCCESSORS d ! t) =
            Inr (map (\<lambda>s. EndBeforeStart t (nat s - 1)) (SUCCESSORS d ! t))"
      using assms t by (intro traverse_map_total successor_edge_in_range) auto
  qed
  then show ?thesis
    by (simp add: precedence_constraints_def)
qed

lemma pulses_Inr:
  assumes "pulses d r = Inr ps"
  shows "ps = demand_pulses d r \<and> (\<forall>t<nat (NB_TASKS d). r < length (DEMANDS d ! t))"
proof -
  from assms obtain pss where
    pss: "traverse (pulse_of d r) [0..<nat (NB_TASKS d)] = Inr pss" and ps: "ps = concat pss"
    by (auto simp: pulses_def split: sum.splits)
  have each: "r < length (DEMANDS d ! t) \<and>
      pulse_of d r t = Inr (if DEMANDS d ! t ! r > 0 then [(t, DEMANDS d ! t ! r)] else [])"
    if "t < nat (NB_TASKS d)" for t
  proof -
    from traverse_Inr_nth [OF pss, of t] that have "pulse_of d r t = Inr (pss ! t)"
      by simp
    then obtain h where "py_index (DEMANDS d ! t) (int r) = Inr h"
      by (auto simp: pulse_of_def split: sum.splits)
    then have "r < length (DEMANDS d ! t)" "h = DEMANDS d ! t ! r"
      by (simp_all add: py_index_nat)
    then show ?thesis
      using \<open>py_index (DEMANDS d ! t) (int r) = Inr h\<close> by (simp add: pulse_of_def)
  qed
  have "pss = map (\<lambda>t. if DEMANDS d ! t ! r > 0 then [(t, DEMANDS d ! t ! r)] else [])
                [0..<nat (NB_TASKS d)]"
    using pss by (rule traverse_Inr_map) (simp add: each)
  with ps each show ?thesis
    by (simp add: demand_pulses_def)
qed

lemma capacity_constraints_Inr:
  assumes "capacity_constraints d = Inr ccs"
  shows "ccs = map (\<lambda>r. SumPulseLe (demand_pulses d r) (CAPACITIES d ! r)) [0..<nat (NB_RESOURCES d)]
         \<and> (\<forall>r<nat (NB_RESOURCES d). r < length (CAPACITIES d)
               \<and> (\<forall>t<nat (NB_TASKS d). r < length (DEMANDS d ! t)))"
proof -
  have tr: "traverse (capacity_constraint d) [0..<nat (NB_RESOURCES d)] = Inr ccs"
    using assms by (simp add: capacity_constraints_def)
  have each: "r < length (CAPACITIES d) \<and> (\<forall>t<nat (NB_TASKS d). r < length (DEMANDS d ! t))
      \<and> capacity_constraint d r = Inr (SumPulseLe (demand_pulses d r) (CAPACITIES d ! r))"
    if "r < nat (NB_RESOURCES d)" for r
  proof -
    from traverse_Inr_nth [OF tr, of r] that have "capacity_constraint d r = Inr (ccs ! r)"
      by simp
    then obtain ps c where ps: "pulses d r = Inr ps" and c: "py_index (CAPACITIES d) (int r) = Inr c"
      by (auto simp: capacity_constraint_def split: sum.splits)
    from c have "r < length (CAPACITIES d)" "c = CAPACITIES d ! r"
      by (simp_all add: py_index_nat)
    with pulses_Inr [OF ps] ps c show ?thesis
      by (simp add: capacity_constraint_def)
  qed
  have "ccs = map (\<lambda>r. SumPulseLe (demand_pulses d r) (CAPACITIES d ! r)) [0..<nat (NB_RESOURCES d)]"
    using tr by (rule traverse_Inr_map) (simp add: each)
  with each show ?thesis
    by simp
qed

lemma usage_demand_pulses:
  "usage m st (demand_pulses d r) u =
     sum_list (map (\<lambda>t. if DEMANDS d ! t ! r > 0 \<and> covers m st t u then DEMANDS d ! t ! r else 0)
                 [0..<nat (NB_TASKS d)])"
proof -
  have "sum_list (map (\<lambda>(i, h). if covers m st i u then h else 0)
          (concat (map (\<lambda>t. if D t > 0 then [(t, D t)] else []) ts))) =
        sum_list (map (\<lambda>t. if D t > 0 \<and> covers m st t u then D t else 0) ts)"
    for D :: "nat \<Rightarrow> int" and ts
    by (induction ts) simp_all
  then show ?thesis
    by (simp add: usage_def demand_pulses_def)
qed

lemma covers_built:
  assumes "intervals m =
       map (\<lambda>i. \<lparr>iv_name = CHR ''T'' # py_str (int i + 1), iv_size = ds ! i\<rparr>) [0..<n]" "t < n"
  shows "covers m st t u \<longleftrightarrow> st t \<le> u \<and> u < st t + ds ! t"
    and "end_time m st t = st t + ds ! t"
  using assms by (simp_all add: covers_def end_time_def)

lemma sum_list_member_le:
  fixes g :: "'a \<Rightarrow> int"
  shows "(\<And>x. x \<in> set xs \<Longrightarrow> 0 \<le> g x) \<Longrightarrow> y \<in> set xs \<Longrightarrow> g y \<le> sum_list (map g xs)"
proof (induction xs)
  case Nil
  then show ?case by simp
next
  case (Cons x xs)
  have nonneg: "0 \<le> sum_list (map g xs)"
    using Cons.prems(1) by (intro sum_list_nonneg) auto
  show ?case
  proof (cases "y = x")
    case True
    with nonneg show ?thesis by simp
  next
    case False
    with Cons.prems(2) have "y \<in> set xs" by simp
    with Cons.IH Cons.prems(1) have "g y \<le> sum_list (map g xs)" by simp
    moreover have "0 \<le> g x" using Cons.prems(1) by simp
    ultimately show ?thesis by simp
  qed
qed

lemma model_of_Inr:
  "snd (read_data f) = Inr d \<Longrightarrow> model_of f = build_model d"
  by (simp add: model_of_def)

lemma satisfies_member:
  "satisfies m st \<Longrightarrow> c \<in> set (constraints m) \<Longrightarrow> holds m st c"
  by (simp add: satisfies_def list_all_iff)

lemma status_error_iff:
  assumes "model_of f = Inr m"
  shows "status_of (solve_rcpsp cp clock f) = ''error'' \<longleftrightarrow>
           cp m TIME_PER_INSTANCE = BuildRaises \<or> cp m TIME_PER_INSTANCE = SolveRaises"
proof (cases "cp m TIME_PER_INSTANCE")
  case BuildRaises
  with assms have "try_block cp f = Inl LibraryError" by (simp add: try_block_def)
  with BuildRaises show ?thesis by (simp add: status_of_def solve_rcpsp_raised)
next
  case SolveRaises
  with assms have "try_block cp f = Inl LibraryError" by (simp add: try_block_def)
  with SolveRaises show ?thesis by (simp add: status_of_def solve_rcpsp_raised)
next
  case (Solved res)
  with assms have "try_block cp f = Inr res" by (simp add: try_block_def)
  with Solved show ?thesis by (simp add: status_of_def solve_rcpsp_returned classify_status)
qed

lemma build_model_Inl:
  "precedence_constraints d = Inl e \<Longrightarrow> \<exists>e'. build_model d = Inl e'"
  by (simp add: build_model_def split: sum.splits)

lemma successor_edge_Inl:
  "NB_TASKS d < s \<or> s \<le> - NB_TASKS d \<Longrightarrow> 0 < NB_TASKS d \<Longrightarrow>
   successor_edge d t s = Inl IndexError"
  unfolding successor_edge_def py_position_def Let_def
  by (cases "s - 1 < 0") simp_all

lemma successor_edge_wrap:
  "- NB_TASKS d < s \<Longrightarrow> s \<le> NB_TASKS d \<Longrightarrow>
   successor_edge d t s = Inr (EndBeforeStart t (wrapped_position d s))"
  unfolding successor_edge_def py_position_def Let_def wrapped_position_def
  by (cases "s - 1 < 0") simp_all

lemma precedence_constraints_wrap:
  assumes "\<forall>u<nat (NB_TASKS d). \<forall>s\<in>set (SUCCESSORS d ! u). - NB_TASKS d < s \<and> s \<le> NB_TASKS d"
  shows "precedence_constraints d =
           Inr (concat (map (\<lambda>u. map (\<lambda>s. EndBeforeStart u (wrapped_position d s)) (SUCCESSORS d ! u))
                          [0..<nat (NB_TASKS d)]))"
proof -
  have "traverse (\<lambda>u. traverse (successor_edge d u) (SUCCESSORS d ! u)) [0..<nat (NB_TASKS d)] =
          Inr (map (\<lambda>u. map (\<lambda>s. EndBeforeStart u (wrapped_position d s)) (SUCCESSORS d ! u))
                 [0..<nat (NB_TASKS d)])"
  proof (rule traverse_map_total)
    fix u assume "u \<in> set [0..<nat (NB_TASKS d)]"
    then have u: "u < nat (NB_TASKS d)" by simp
    show "traverse (successor_edge d u) (SUCCESSORS d ! u) =
            Inr (map (\<lambda>s. EndBeforeStart u (wrapped_position d s)) (SUCCESSORS d ! u))"
    proof (rule traverse_map_total)
      fix s assume "s \<in> set (SUCCESSORS d ! u)"
      with assms u have "- NB_TASKS d < s" "s \<le> NB_TASKS d" by auto
      then show "successor_edge d u s = Inr (EndBeforeStart u (wrapped_position d s))"
        by (rule successor_edge_wrap)
    qed
  qed
  then show ?thesis
    by (simp add: precedence_constraints_def)
qed

lemma capacity_constraints_total:
  assumes "\<forall>r<nat (NB_RESOURCES d). r < length (CAPACITIES d)
             \<and> (\<forall>u<nat (NB_TASKS d). r < length (DEMANDS d ! u))"
  shows "capacity_constraints d =
           Inr (map (\<lambda>r. SumPulseLe (demand_pulses d r) (CAPACITIES d ! r))
                  [0..<nat (NB_RESOURCES d)])"
  unfolding capacity_constraints_def
proof (rule traverse_map_total)
  fix r assume "r \<in> set [0..<nat (NB_RESOURCES d)]"
  then have r: "r < nat (NB_RESOURCES d)" by simp
  with assms have cap: "r < length (CAPACITIES d)"
    and dem: "\<And>u. u < nat (NB_TASKS d) \<Longrightarrow> r < length (DEMANDS d ! u)"
    by auto
  have "traverse (pulse_of d r) [0..<nat (NB_TASKS d)] =
          Inr (map (\<lambda>t. if DEMANDS d ! t ! r > 0 then [(t, DEMANDS d ! t ! r)] else [])
                 [0..<nat (NB_TASKS d)])"
  proof (rule traverse_map_total)
    fix u assume "u \<in> set [0..<nat (NB_TASKS d)]"
    then have "r < length (DEMANDS d ! u)" using dem by simp
    then have "py_index (DEMANDS d ! u) (int r) = Inr (DEMANDS d ! u ! r)"
      by (simp add: py_index_nat)
    then show "pulse_of d r u = Inr (if DEMANDS d ! u ! r > 0 then [(u, DEMANDS d ! u ! r)] else [])"
      by (simp add: pulse_of_def)
  qed
  then have "pulses d r = Inr (demand_pulses d r)"
    by (simp add: pulses_def demand_pulses_def)
  moreover from cap have "py_index (CAPACITIES d) (int r) = Inr (CAPACITIES d ! r)"
    by (simp add: py_index_nat)
  ultimately show "capacity_constraint d r = Inr (SumPulseLe (demand_pulses d r) (CAPACITIES d ! r))"
    by (simp add: capacity_constraint_def)
qed

section \<open>The returned status\<close>

text \<open>
  Claim C5. For every input the status returned by \<open>solve_rcpsp\<close> is one of
  \<open>optimal\<close>, \<open>feasible\<close>, \<open>unknown\<close> and \<open>error\<close>. It is \<open>optimal\<close> exactly when the
  library returns a result that holds a solution and reports the solve status
  \<open>Optimal\<close>, \<open>feasible\<close> exactly when the result holds a solution with any other solve
  status, \<open>unknown\<close> exactly when the result holds no solution, and \<open>error\<close> exactly
  when an exception occurs in the \<open>try\<close> block.
\<close>

theorem status_classification:
  "status_of (solve_rcpsp cp clock f) \<in> {''optimal'', ''feasible'', ''unknown'', ''error''}
   \<and> (status_of (solve_rcpsp cp clock f) = ''optimal'' \<longleftrightarrow>
        (\<exists>res. try_block cp f = Inr res \<and> is_solution res
               \<and> get_solve_status res = ''Optimal''))
   \<and> (status_of (solve_rcpsp cp clock f) = ''feasible'' \<longleftrightarrow>
        (\<exists>res. try_block cp f = Inr res \<and> is_solution res
               \<and> get_solve_status res \<noteq> ''Optimal''))
   \<and> (status_of (solve_rcpsp cp clock f) = ''unknown'' \<longleftrightarrow>
        (\<exists>res. try_block cp f = Inr res \<and> \<not> is_solution res))
   \<and> (status_of (solve_rcpsp cp clock f) = ''error'' \<longleftrightarrow>
        (\<exists>e. try_block cp f = Inl e))"
proof (cases "try_block cp f")
  case (Inl e)
  then show ?thesis
    by (simp add: status_of_def solve_rcpsp_raised)
next
  case (Inr res)
  then show ?thesis
    by (simp add: status_of_def solve_rcpsp_returned classify_status)
qed

theorem status_classification_witness:
  "status_of (solve_rcpsp optimum_5 (0, 1) two_tasks) = ''optimal''
   \<and> (\<exists>res. try_block optimum_5 two_tasks = Inr res \<and> is_solution res
            \<and> get_solve_status res = ''Optimal'')"
proof -
  have "status_of (solve_rcpsp optimum_5 (0, 1) two_tasks) = ''optimal''"
    by code_simp
  with status_classification [of optimum_5 "(0, 1)" two_tasks] show ?thesis
    by simp
qed

section \<open>When the solve operation returns\<close>




section \<open>The batch loop keeps going\<close>




section \<open>The fields of a task line\<close>

text \<open>
  Claim C6. For every task line of a well-formed instance with \<open>R\<close> resources, parsing
  takes the first token as the duration, tokens 2 to \<open>R + 1\<close> as the demand vector,
  of length exactly \<open>R\<close>, and the tokens from position \<open>R + 3\<close> on as the successor
  ids; a successor id \<open>s\<close> between 1 and the number of tasks is a 1-based task index:
  its edge ends at position \<open>s - 1\<close> of \<open>tasks\<close>, the interval named \<open>T\<close> followed
  by \<open>s\<close>.
\<close>

theorem task_line_fields:
  assumes "lines f = Some ls" "snd (read_data f) = Inr d" "tasks d = Inr ivs"
    and "t < nat (NB_TASKS d)" "0 \<le> NB_RESOURCES d"
    and "py_split (task_line ls t) = dur # dem @ cnt # succ"
    and "length dem = nat (NB_RESOURCES d)"
  shows "py_int dur = Inr (iv_size (ivs ! t))
         \<and> traverse py_int dem = Inr (DEMANDS d ! t)
         \<and> length (DEMANDS d ! t) = nat (NB_RESOURCES d)
         \<and> traverse py_int succ = Inr (SUCCESSORS d ! t)
         \<and> (\<forall>s \<in> set (SUCCESSORS d ! t). 1 \<le> s \<and> s \<le> NB_TASKS d \<longrightarrow>
               successor_edge d t s = Inr (EndBeforeStart t (nat s - 1))
               \<and> iv_name (ivs ! (nat s - 1)) = CHR ''T'' # py_str s)"
proof -
  from assms(3) obtain ds where ds: "DURATIONS d = Inr ds"
    and ivs: "ivs = map (\<lambda>i. \<lparr>iv_name = CHR ''T'' # py_str (int i + 1), iv_size = ds ! i\<rparr>)
                      [0..<nat (NB_TASKS d)]"
    by (auto simp: tasks_def split: sum.splits)
  have "int_row (task_line ls t) = Inr (TASKS d ! t)"
    using assms(1,2,4) by (rule read_data_task_row)
  with assms(6) have "traverse py_int (dur # dem @ cnt # succ) = Inr (TASKS d ! t)"
    by (simp add: int_row_def)
  then obtain a bs c ss where
    row: "TASKS d ! t = a # bs @ c # ss" and
    a: "py_int dur = Inr a" and bs: "traverse py_int dem = Inr bs" and
    ss: "traverse py_int succ = Inr ss"
    by (rule traverse_row_parts)
  from bs assms(7) have len: "length bs = nat (NB_RESOURCES d)"
    by (simp add: traverse_Inr_length)
  from DURATIONS_nth [OF ds assms(4)] row row_slices(1) [OF len assms(5)]
  have "ds ! t = a" by simp
  with ivs assms(4) have "iv_size (ivs ! t) = a" by simp
  moreover have "DEMANDS d ! t = bs"
    using assms(4) row row_slices(2) [OF len assms(5)] by (simp add: DEMANDS_nth)
  moreover have "SUCCESSORS d ! t = ss"
    using assms(4) row row_slices(3) [OF len assms(5)] by (simp add: SUCCESSORS_nth)
  moreover have "\<forall>s \<in> set ss. 1 \<le> s \<and> s \<le> NB_TASKS d \<longrightarrow>
               successor_edge d t s = Inr (EndBeforeStart t (nat s - 1))
               \<and> iv_name (ivs ! (nat s - 1)) = CHR ''T'' # py_str s"
    using successor_edge_in_range [of _ d t] tasks_name [OF assms(3)] by blast
  ultimately show ?thesis
    using a bs ss len by simp
qed

theorem task_line_fields_witness:
  "lines two_tasks = Some [''2 1'', ''1'', ''3 1 1 2'', ''2 1 0'']
   \<and> snd (read_data two_tasks) = Inr two_tasks_data
   \<and> tasks two_tasks_data = Inr (intervals two_tasks_model)
   \<and> (0::nat) < nat (NB_TASKS two_tasks_data)
   \<and> 0 \<le> NB_RESOURCES two_tasks_data
   \<and> py_split (task_line [''2 1'', ''1'', ''3 1 1 2'', ''2 1 0''] 0) = ''3'' # [''1''] @ ''1'' # [''2'']
   \<and> length [''1''] = nat (NB_RESOURCES two_tasks_data)
   \<and> py_int ''3'' = Inr (iv_size (intervals two_tasks_model ! 0))
   \<and> traverse py_int [''1''] = Inr (DEMANDS two_tasks_data ! 0)
   \<and> traverse py_int [''2''] = Inr (SUCCESSORS two_tasks_data ! 0)
   \<and> successor_edge two_tasks_data 0 2 = Inr (EndBeforeStart 0 1)
   \<and> iv_name (intervals two_tasks_model ! 1) = ''T2''"
proof -
  have h1: "lines two_tasks = Some [''2 1'', ''1'', ''3 1 1 2'', ''2 1 0'']"
    by (simp add: two_tasks_def)
  have h2: "snd (read_data two_tasks) = Inr two_tasks_data"
    by code_simp
  have h3: "tasks two_tasks_data = Inr (intervals two_tasks_model)"
    by code_simp
  have h4: "(0::nat) < nat (NB_TASKS two_tasks_data)"
    by (simp add: two_tasks_data_def)
  have h5: "0 \<le> NB_RESOURCES two_tasks_data"
    by (simp add: two_tasks_data_def)
  have h6: "py_split (task_line [''2 1'', ''1'', ''3 1 1 2'', ''2 1 0''] 0) =
              ''3'' # [''1''] @ ''1'' # [''2'']"
    by code_simp
  have h7: "length [''1''] = nat (NB_RESOURCES two_tasks_data)"
    by (simp add: two_tasks_data_def)
  note c = task_line_fields [OF h1 h2 h3 h4 h5 h6 h7]
  have s: "SUCCESSORS two_tasks_data ! 0 = [2]"
    by code_simp
  have n: "NB_TASKS two_tasks_data = 2"
    by (simp add: two_tasks_data_def)
  from c have c1: "py_int ''3'' = Inr (iv_size (intervals two_tasks_model ! 0))"
    and c2: "traverse py_int [''1''] = Inr (DEMANDS two_tasks_data ! 0)"
    and c3: "traverse py_int [''2''] = Inr (SUCCESSORS two_tasks_data ! 0)"
    by blast+
  from c have "\<forall>s \<in> set (SUCCESSORS two_tasks_data ! 0).
      1 \<le> s \<and> s \<le> NB_TASKS two_tasks_data \<longrightarrow>
        successor_edge two_tasks_data 0 s = Inr (EndBeforeStart 0 (nat s - 1))
        \<and> iv_name (intervals two_tasks_model ! (nat s - 1)) = CHR ''T'' # py_str s"
    by blast
  then have c4: "successor_edge two_tasks_data 0 2 = Inr (EndBeforeStart 0 1)"
    and "iv_name (intervals two_tasks_model ! 1) = CHR ''T'' # py_str 2"
    by (simp_all add: s n)
  moreover have "CHR ''T'' # py_str 2 = ''T2''"
    by code_simp
  ultimately have c5: "iv_name (intervals two_tasks_model ! 1) = ''T2''"
    by simp
  show ?thesis
    by (intro conjI) (fact h1 h2 h3 h4 h5 h6 h7 c1 c2 c3 c4 c5)+
qed

section \<open>The bound token of the header\<close>

text \<open>
  Claim C2. Two input files that differ only in the presence or the value of what
  follows the second token of the first line (the optional bound) give the same model,
  the same call of the library, the same makespan and the same status: the bound is
  never used as a constraint. The note that the bound is ignored is printed exactly when
  such a token is present and the two counts before it are integers.
\<close>

theorem bound_token_ignored:
  assumes "lines f = Some (l # rest)" "lines f' = Some (l' # rest)"
    and "name f' = name f" "path f' = path f"
    and "py_split l = a # b # bound" "py_split l' = a # b # bound'"
  shows "model_of f' = model_of f
         \<and> try_block cp f' = try_block cp f
         \<and> makespan_of (solve_rcpsp cp clock f') = makespan_of (solve_rcpsp cp clock f)
         \<and> status_of (solve_rcpsp cp clock f') = status_of (solve_rcpsp cp clock f)
         \<and> (IgnoringBound (name f) \<in> set (printed (solve_rcpsp cp clock f)) \<longleftrightarrow>
              bound \<noteq> [] \<and> (\<exists>n r. py_int a = Inr n \<and> py_int b = Inr r))"
proof -
  have rd: "snd (read_data f') = snd (read_data f)"
    using assms
    by (simp add: read_data_Some read_header_two split: sum.splits)
  then have m: "model_of f' = model_of f"
    by (simp add: model_of_def)
  have s: "snd (solve_rcpsp cp clock f') = snd (solve_rcpsp cp clock f)"
    using rd assms(3) by (rule solve_rcpsp_snd_cong)
  have p: "IgnoringBound (name f) \<in> set (fst (read_data f)) \<longleftrightarrow>
             bound \<noteq> [] \<and> (\<exists>n r. py_int a = Inr n \<and> py_int b = Inr r)"
    using assms(1,5)
    by (simp add: read_data_Some read_header_two split: sum.splits)
  from m s p show ?thesis
    by (simp add: try_block_def makespan_of_def status_of_def printed_solve_rcpsp)
qed

theorem bound_token_ignored_witness:
  "lines two_tasks_bound = Some (''2 1 7'' # [''1'', ''3 1 1 2'', ''2 1 0''])
   \<and> lines two_tasks = Some (''2 1'' # [''1'', ''3 1 1 2'', ''2 1 0''])
   \<and> name two_tasks = name two_tasks_bound
   \<and> path two_tasks = path two_tasks_bound
   \<and> py_split ''2 1 7'' = ''2'' # ''1'' # [''7'']
   \<and> py_split ''2 1'' = ''2'' # ''1'' # []
   \<and> model_of two_tasks = model_of two_tasks_bound
   \<and> makespan_of (solve_rcpsp optimum_5 (0, 1) two_tasks) =
       makespan_of (solve_rcpsp optimum_5 (0, 1) two_tasks_bound)
   \<and> status_of (solve_rcpsp optimum_5 (0, 1) two_tasks) =
       status_of (solve_rcpsp optimum_5 (0, 1) two_tasks_bound)
   \<and> IgnoringBound ''two.data'' \<in> set (printed (solve_rcpsp optimum_5 (0, 1) two_tasks_bound))"
proof -
  have h1: "lines two_tasks_bound = Some (''2 1 7'' # [''1'', ''3 1 1 2'', ''2 1 0''])"
    by (simp add: two_tasks_bound_def)
  have h2: "lines two_tasks = Some (''2 1'' # [''1'', ''3 1 1 2'', ''2 1 0''])"
    by (simp add: two_tasks_def)
  have h3: "name two_tasks = name two_tasks_bound"
    by (simp add: two_tasks_def two_tasks_bound_def)
  have h4: "path two_tasks = path two_tasks_bound"
    by (simp add: two_tasks_def two_tasks_bound_def)
  have h5: "py_split ''2 1 7'' = ''2'' # ''1'' # [''7'']"
    by code_simp
  have h6: "py_split ''2 1'' = ''2'' # ''1'' # []"
    by code_simp
  note c = bound_token_ignored [where cp = optimum_5 and clock = "(0, 1)", OF h1 h2 h3 h4 h5 h6]
  from c have c1: "model_of two_tasks = model_of two_tasks_bound"
    and c2: "makespan_of (solve_rcpsp optimum_5 (0, 1) two_tasks) =
               makespan_of (solve_rcpsp optimum_5 (0, 1) two_tasks_bound)"
    and c3: "status_of (solve_rcpsp optimum_5 (0, 1) two_tasks) =
               status_of (solve_rcpsp optimum_5 (0, 1) two_tasks_bound)"
    by blast+
  have p: "py_int ''2'' = Inr 2" "py_int ''1'' = Inr 1"
    by code_simp+
  have n: "name two_tasks_bound = ''two.data''"
    by (simp add: two_tasks_bound_def)
  from c have "IgnoringBound (name two_tasks_bound)
        \<in> set (printed (solve_rcpsp optimum_5 (0, 1) two_tasks_bound)) \<longleftrightarrow>
      [''7''] \<noteq> [] \<and> (\<exists>n r. py_int ''2'' = Inr n \<and> py_int ''1'' = Inr r)"
    by blast
  then have c4: "IgnoringBound ''two.data''
      \<in> set (printed (solve_rcpsp optimum_5 (0, 1) two_tasks_bound))"
    by (simp add: p n)
  show ?thesis
    by (intro conjI) (fact h1 h2 h3 h4 h5 h6 c1 c2 c3 c4)+
qed

section \<open>The declared number of successors\<close>

text \<open>
  Claim C10. The token that declares the number of successors, at position \<open>R + 2\<close> of
  a task line, is converted to an integer and then neither used nor checked: the
  successors are all the tokens after it, and putting any other integer in its place
  changes nothing of what \<open>solve_rcpsp\<close> prints and returns, so a count that disagrees
  with the number of ids that follow is accepted silently.
\<close>

theorem successor_count_ignored:
  assumes "lines f = Some ls" "snd (read_data f) = Inr d"
    and "t < nat (NB_TASKS d)" "0 \<le> NB_RESOURCES d"
    and "py_split (task_line ls t) = dur # dem @ cnt # succ"
    and "length dem = nat (NB_RESOURCES d)"
    and "py_split l' = dur # dem @ cnt' # succ" "py_int cnt' = Inr k'"
  shows "traverse py_int succ = Inr (SUCCESSORS d ! t)
         \<and> solve_rcpsp cp clock (f\<lparr>lines := Some (ls[t + 2 := l'])\<rparr>) = solve_rcpsp cp clock f"
proof -
  let ?f' = "f\<lparr>lines := Some (ls[t + 2 := l'])\<rparr>"
  from assms(5) have present: "t + 2 < length ls"
    using task_line_present [of ls t] by simp
  from assms(2) obtain ls0 where
    l0: "lines f = Some ls0" and
    hd: "snd (read_header (name f) (py_split (fst (readline ls0)))) = Inr (NB_TASKS d, NB_RESOURCES d)" and
    cp: "int_row (fst (readline (drop 1 ls0))) = Inr (CAPACITIES d)" and
    rt: "read_tasks (nat (NB_TASKS d)) (drop 2 ls0) = Inr (TASKS d)"
    by (rule read_data_Inr)
  from l0 assms(1) have ls0: "ls0 = ls" by simp
  have row: "int_row (task_line ls t) = Inr (TASKS d ! t)"
    using assms(1,2,3) by (rule read_data_task_row)
  with assms(5) have "traverse py_int (dur # dem @ cnt # succ) = Inr (TASKS d ! t)"
    by (simp add: int_row_def)
  then obtain a bs c ss where
    rowt: "TASKS d ! t = a # bs @ c # ss" and
    a: "py_int dur = Inr a" and bs: "traverse py_int dem = Inr bs" and
    ss: "traverse py_int succ = Inr ss"
    by (rule traverse_row_parts)
  from bs assms(6) have len: "length bs = nat (NB_RESOURCES d)"
    by (simp add: traverse_Inr_length)
  have succ: "SUCCESSORS d ! t = ss"
    using assms(3) rowt row_slices(3) [OF len assms(4)] by (simp add: SUCCESSORS_nth)
  define row' where "row' = a # bs @ k' # ss"
  have row': "int_row l' = Inr row'"
    using assms(7,8) a bs ss unfolding int_row_def row'_def traverse_Inr_iff
    by (simp add: list_all2_appendI)
  define d' where "d' = d\<lparr>TASKS := (TASKS d)[t := row']\<rparr>"
  have lenT: "length (TASKS d) = nat (NB_TASKS d)"
    using rt by (rule read_tasks_length)
  have rt': "read_tasks (nat (NB_TASKS d)) (drop 2 (ls[t + 2 := l'])) = Inr (TASKS d')"
    using read_tasks_update [OF rt assms(3) _ row'] present ls0
    by (simp add: d'_def drop_update_swap)
  obtain x y zs where lsx: "ls = x # y # zs"
    using present by (cases ls; cases "tl ls") auto
  have rd': "read_data ?f' = (fst (read_data f), Inr d')"
    using hd cp rt' ls0 lsx assms(1)
    by (cases "read_header (name f) (py_split x)")
       (auto simp: read_data_def read_body_def d'_def split: sum.splits prod.splits)
  have rd: "read_data f = (fst (read_data f), Inr d)"
    using assms(2) by (cases "read_data f") simp
  have same_row: "\<And>u. u < nat (NB_TASKS d) \<Longrightarrow>
      py_index (TASKS d' ! u) 0 = py_index (TASKS d ! u) 0
      \<and> py_slice (TASKS d' ! u) 1 (NB_RESOURCES d + 1) = py_slice (TASKS d ! u) 1 (NB_RESOURCES d + 1)
      \<and> py_slice_from (TASKS d' ! u) (NB_RESOURCES d + 2) = py_slice_from (TASKS d ! u) (NB_RESOURCES d + 2)"
  proof -
    fix u assume u: "u < nat (NB_TASKS d)"
    show "py_index (TASKS d' ! u) 0 = py_index (TASKS d ! u) 0
      \<and> py_slice (TASKS d' ! u) 1 (NB_RESOURCES d + 1) = py_slice (TASKS d ! u) 1 (NB_RESOURCES d + 1)
      \<and> py_slice_from (TASKS d' ! u) (NB_RESOURCES d + 2) = py_slice_from (TASKS d ! u) (NB_RESOURCES d + 2)"
    proof (cases "u = t")
      case True
      with lenT assms(3) have "TASKS d' ! u = a # bs @ k' # ss"
        by (simp add: d'_def row'_def)
      with True rowt row_slices [OF len assms(4), of a c ss] row_slices [OF len assms(4), of a k' ss]
      show ?thesis by simp
    next
      case False
      then show ?thesis by (simp add: d'_def)
    qed
  qed
  have "build_model d' = build_model d"
  proof (rule build_model_cong)
    show "DURATIONS d' = DURATIONS d"
      unfolding DURATIONS_def using same_row
      by (auto simp: d'_def intro!: traverse_cong)
    show "DEMANDS d' = DEMANDS d"
      unfolding DEMANDS_def using same_row by (simp add: d'_def)
    show "SUCCESSORS d' = SUCCESSORS d"
      unfolding SUCCESSORS_def using same_row by (simp add: d'_def)
  qed (simp_all add: d'_def)
  then have "model_of ?f' = model_of f"
    using rd' assms(2) by (simp add: model_of_def)
  then have "solve_rcpsp cp clock ?f' = solve_rcpsp cp clock f"
    using rd' by (intro solve_rcpsp_eqI) simp_all
  with ss succ show ?thesis by simp
qed

theorem successor_count_ignored_witness:
  "lines two_tasks = Some [''2 1'', ''1'', ''3 1 1 2'', ''2 1 0'']
   \<and> snd (read_data two_tasks) = Inr two_tasks_data
   \<and> (0::nat) < nat (NB_TASKS two_tasks_data)
   \<and> 0 \<le> NB_RESOURCES two_tasks_data
   \<and> py_split (task_line [''2 1'', ''1'', ''3 1 1 2'', ''2 1 0''] 0) = ''3'' # [''1''] @ ''1'' # [''2'']
   \<and> length [''1''] = nat (NB_RESOURCES two_tasks_data)
   \<and> py_split ''3 1 5 2'' = ''3'' # [''1''] @ ''5'' # [''2'']
   \<and> py_int ''5'' = Inr 5
   \<and> solve_rcpsp optimum_5 (0, 1)
        (two_tasks\<lparr>lines := Some ([''2 1'', ''1'', ''3 1 1 2'', ''2 1 0''][0 + 2 := ''3 1 5 2''])\<rparr>) =
      solve_rcpsp optimum_5 (0, 1) two_tasks
   \<and> status_of (solve_rcpsp optimum_5 (0, 1)
        (two_tasks\<lparr>lines := Some [''2 1'', ''1'', ''3 1 5 2'', ''2 1 0'']\<rparr>)) = ''optimal''"
proof -
  have h1: "lines two_tasks = Some [''2 1'', ''1'', ''3 1 1 2'', ''2 1 0'']"
    by (simp add: two_tasks_def)
  have h2: "snd (read_data two_tasks) = Inr two_tasks_data"
    by code_simp
  have h3: "(0::nat) < nat (NB_TASKS two_tasks_data)"
    by (simp add: two_tasks_data_def)
  have h4: "0 \<le> NB_RESOURCES two_tasks_data"
    by (simp add: two_tasks_data_def)
  have h5: "py_split (task_line [''2 1'', ''1'', ''3 1 1 2'', ''2 1 0''] 0) =
              ''3'' # [''1''] @ ''1'' # [''2'']"
    by code_simp
  have h6: "length [''1''] = nat (NB_RESOURCES two_tasks_data)"
    by (simp add: two_tasks_data_def)
  have h7: "py_split ''3 1 5 2'' = ''3'' # [''1''] @ ''5'' # [''2'']"
    by code_simp
  have h8: "py_int ''5'' = Inr 5"
    by code_simp
  note c = successor_count_ignored [where cp = optimum_5 and clock = "(0, 1)",
      OF h1 h2 h3 h4 h5 h6 h7 h8]
  from c have c1: "solve_rcpsp optimum_5 (0, 1)
        (two_tasks\<lparr>lines := Some ([''2 1'', ''1'', ''3 1 1 2'', ''2 1 0''][0 + 2 := ''3 1 5 2''])\<rparr>) =
      solve_rcpsp optimum_5 (0, 1) two_tasks"
    by blast
  have "status_of (solve_rcpsp optimum_5 (0, 1) two_tasks) = ''optimal''"
    by code_simp
  with c1 have c2: "status_of (solve_rcpsp optimum_5 (0, 1)
        (two_tasks\<lparr>lines := Some [''2 1'', ''1'', ''3 1 5 2'', ''2 1 0'']\<rparr>)) = ''optimal''"
    by simp
  show ?thesis
    by (intro conjI) (fact h1 h2 h3 h4 h5 h6 h7 h8 c1 c2)+
qed

section \<open>The constraints of the model\<close>

text \<open>
  Claim C3. For every valid instance (the file is read, the model is built and every
  successor id is a task id), the model built by \<open>solve_rcpsp\<close> holds exactly one
  end-before-start constraint per successor edge followed by one cumulative constraint,
  sum of pulses at most the capacity, per resource; and every schedule that satisfies
  the model respects every precedence edge, finish of \<open>t\<close> no later than start of its
  successor, and keeps, for every resource and every integer instant, the summed demands
  of the tasks running at that instant at or below the capacity.
\<close>

theorem model_constraints:
  assumes "snd (read_data f) = Inr d" "model_of f = Inr m" "DURATIONS d = Inr ds"
    and "\<forall>t<nat (NB_TASKS d). \<forall>s\<in>set (SUCCESSORS d ! t). 1 \<le> s \<and> s \<le> NB_TASKS d"
  shows "constraints m =
           concat (map (\<lambda>t. map (\<lambda>s. EndBeforeStart t (nat s - 1)) (SUCCESSORS d ! t))
                     [0..<nat (NB_TASKS d)])
           @ map (\<lambda>r. SumPulseLe (demand_pulses d r) (CAPACITIES d ! r))
               [0..<nat (NB_RESOURCES d)]
         \<and> (\<forall>st. satisfies m st \<longrightarrow>
              (\<forall>t<nat (NB_TASKS d). \<forall>s\<in>set (SUCCESSORS d ! t).
                   st t + ds ! t \<le> st (nat s - 1))
              \<and> (\<forall>r<nat (NB_RESOURCES d). \<forall>u.
                   sum_list (map (\<lambda>t. if st t \<le> u \<and> u < st t + ds ! t
                                       then DEMANDS d ! t ! r else 0)
                               [0..<nat (NB_TASKS d)])
                   \<le> CAPACITIES d ! r))"
proof -
  from assms(1,2) have "build_model d = Inr m"
    by (simp add: model_of_Inr)
  then obtain ds' pcs ccs where
    ds': "DURATIONS d = Inr ds'" and pcs: "precedence_constraints d = Inr pcs" and
    ccs: "capacity_constraints d = Inr ccs" and
    ivs: "intervals m =
       map (\<lambda>i. \<lparr>iv_name = CHR ''T'' # py_str (int i + 1), iv_size = ds' ! i\<rparr>)
         [0..<nat (NB_TASKS d)]" and
    cs: "constraints m = pcs @ ccs"
    by (rule build_model_Inr)
  from ds' assms(3) have [simp]: "ds' = ds" by simp
  have pcs_eq: "pcs = concat (map (\<lambda>t. map (\<lambda>s. EndBeforeStart t (nat s - 1)) (SUCCESSORS d ! t))
                     [0..<nat (NB_TASKS d)])"
    using precedence_constraints_valid [OF assms(4)] pcs by simp
  have ccs_eq: "ccs = map (\<lambda>r. SumPulseLe (demand_pulses d r) (CAPACITIES d ! r))
               [0..<nat (NB_RESOURCES d)]"
    using capacity_constraints_Inr [OF ccs] by simp
  have sem: "(\<forall>t<nat (NB_TASKS d). \<forall>s\<in>set (SUCCESSORS d ! t). st t + ds ! t \<le> st (nat s - 1))
              \<and> (\<forall>r<nat (NB_RESOURCES d). \<forall>u.
                   sum_list (map (\<lambda>t. if st t \<le> u \<and> u < st t + ds ! t
                                       then DEMANDS d ! t ! r else 0)
                               [0..<nat (NB_TASKS d)])
                   \<le> CAPACITIES d ! r)"
    if sat: "satisfies m st" for st
  proof (intro conjI allI impI ballI)
    fix t s assume t: "t < nat (NB_TASKS d)" and s: "s \<in> set (SUCCESSORS d ! t)"
    then have "EndBeforeStart t (nat s - 1) \<in> set (constraints m)"
      unfolding cs pcs_eq by auto
    with sat have "holds m st (EndBeforeStart t (nat s - 1))"
      by (rule satisfies_member)
    then show "st t + ds ! t \<le> st (nat s - 1)"
      using covers_built(2) [OF ivs t] by simp
  next
    fix r u assume r: "r < nat (NB_RESOURCES d)"
    then have "SumPulseLe (demand_pulses d r) (CAPACITIES d ! r) \<in> set (constraints m)"
      unfolding cs ccs_eq by auto
    with sat have "holds m st (SumPulseLe (demand_pulses d r) (CAPACITIES d ! r))"
      by (rule satisfies_member)
    then have le: "usage m st (demand_pulses d r) u \<le> CAPACITIES d ! r"
      by simp
    have "sum_list (map (\<lambda>t. if st t \<le> u \<and> u < st t + ds ! t then DEMANDS d ! t ! r else 0)
                      [0..<nat (NB_TASKS d)])
          \<le> sum_list (map (\<lambda>t. if DEMANDS d ! t ! r > 0 \<and> covers m st t u
                                 then DEMANDS d ! t ! r else 0) [0..<nat (NB_TASKS d)])"
      by (rule sum_list_mono) (simp add: covers_built(1) [OF ivs])
    with le show "sum_list (map (\<lambda>t. if st t \<le> u \<and> u < st t + ds ! t
                                       then DEMANDS d ! t ! r else 0)
                               [0..<nat (NB_TASKS d)]) \<le> CAPACITIES d ! r"
      by (simp add: usage_demand_pulses)
  qed
  have "constraints m =
           concat (map (\<lambda>t. map (\<lambda>s. EndBeforeStart t (nat s - 1)) (SUCCESSORS d ! t))
                     [0..<nat (NB_TASKS d)])
           @ map (\<lambda>r. SumPulseLe (demand_pulses d r) (CAPACITIES d ! r))
               [0..<nat (NB_RESOURCES d)]"
    unfolding cs pcs_eq ccs_eq ..
  moreover from sem have "\<forall>st. satisfies m st \<longrightarrow>
              (\<forall>t<nat (NB_TASKS d). \<forall>s\<in>set (SUCCESSORS d ! t).
                   st t + ds ! t \<le> st (nat s - 1))
              \<and> (\<forall>r<nat (NB_RESOURCES d). \<forall>u.
                   sum_list (map (\<lambda>t. if st t \<le> u \<and> u < st t + ds ! t
                                       then DEMANDS d ! t ! r else 0)
                               [0..<nat (NB_TASKS d)])
                   \<le> CAPACITIES d ! r)"
    by (intro allI impI)
  ultimately show ?thesis
    by (rule conjI)
qed

theorem model_constraints_witness:
  "snd (read_data two_tasks) = Inr two_tasks_data
   \<and> model_of two_tasks = Inr two_tasks_model
   \<and> DURATIONS two_tasks_data = Inr [3, 2]
   \<and> SUCCESSORS two_tasks_data = [[2], []]
   \<and> satisfies two_tasks_model one_after_other
   \<and> one_after_other 0 + [3, 2] ! 0 \<le> one_after_other (nat 2 - 1)
   \<and> (\<forall>u.
         sum_list (map (\<lambda>t. if one_after_other t \<le> u \<and> u < one_after_other t + [3, 2] ! t
                             then DEMANDS two_tasks_data ! t ! 0 else 0)
                     [0..<nat (NB_TASKS two_tasks_data)])
         \<le> CAPACITIES two_tasks_data ! 0)"
proof -
  have h1: "snd (read_data two_tasks) = Inr two_tasks_data"
    by code_simp
  have h2: "model_of two_tasks = Inr two_tasks_model"
    by code_simp
  have h3: "DURATIONS two_tasks_data = Inr [3, 2]"
    by code_simp
  have s: "SUCCESSORS two_tasks_data = [[2], []]"
    by code_simp
  have h4: "\<forall>t<nat (NB_TASKS two_tasks_data). \<forall>s\<in>set (SUCCESSORS two_tasks_data ! t).
              1 \<le> s \<and> s \<le> NB_TASKS two_tasks_data"
    unfolding s by (simp add: two_tasks_data_def numeral_2_eq_2 less_Suc_eq)
  have h5: "satisfies two_tasks_model one_after_other"
    by (simp add: satisfies_def two_tasks_model_def end_time_def usage_def covers_def
          one_after_other_def)
  note c = model_constraints [OF h1 h2 h3 h4]
  from c h5 have c1: "\<forall>t<nat (NB_TASKS two_tasks_data). \<forall>s\<in>set (SUCCESSORS two_tasks_data ! t).
         one_after_other t + [3, 2] ! t \<le> one_after_other (nat s - 1)"
    and c2: "\<forall>r<nat (NB_RESOURCES two_tasks_data). \<forall>u.
         sum_list (map (\<lambda>t. if one_after_other t \<le> u \<and> u < one_after_other t + [3, 2] ! t
                             then DEMANDS two_tasks_data ! t ! r else 0)
                     [0..<nat (NB_TASKS two_tasks_data)])
         \<le> CAPACITIES two_tasks_data ! r"
    by blast+
  have "(0::nat) < nat (NB_TASKS two_tasks_data)" "2 \<in> set (SUCCESSORS two_tasks_data ! 0)"
    unfolding s by (simp_all add: two_tasks_data_def)
  with c1 have d1: "one_after_other 0 + [3, 2] ! 0 \<le> one_after_other (nat 2 - 1)"
    by blast
  have "(0::nat) < nat (NB_RESOURCES two_tasks_data)"
    by (simp add: two_tasks_data_def)
  with c2 have d2: "\<forall>u.
         sum_list (map (\<lambda>t. if one_after_other t \<le> u \<and> u < one_after_other t + [3, 2] ! t
                             then DEMANDS two_tasks_data ! t ! 0 else 0)
                     [0..<nat (NB_TASKS two_tasks_data)])
         \<le> CAPACITIES two_tasks_data ! 0"
    by blast
  show ?thesis
    by (intro conjI) (fact h1 h2 h3 s h5 d1 d2)+
qed

section \<open>A demand above the capacity\<close>

text \<open>
  Claim C1, as the code has it. The script makes no check of the demands against the
  capacities before the search: for every instance that is read and whose model is
  built, one with a task of positive duration whose demand for some resource exceeds
  the capacity included, the model goes to the library as it is. No schedule satisfies
  that model; the status is \<open>error\<close> only when the library raises, and when the
  library reports no solution the script returns status \<open>unknown\<close> with makespan
  \<open>None\<close>.
\<close>

theorem overload_not_checked:
  assumes "snd (read_data f) = Inr d" "model_of f = Inr m" "DURATIONS d = Inr ds"
    and "t < nat (NB_TASKS d)" "r < nat (NB_RESOURCES d)"
    and "CAPACITIES d ! r < DEMANDS d ! t ! r" "0 < ds ! t"
  shows "(\<forall>st. \<not> satisfies m st)
         \<and> (status_of (solve_rcpsp cp clock f) = ''error'' \<longleftrightarrow>
              cp m TIME_PER_INSTANCE = BuildRaises \<or> cp m TIME_PER_INSTANCE = SolveRaises)
         \<and> (\<forall>res. cp m TIME_PER_INSTANCE = Solved res \<and> \<not> is_solution res \<longrightarrow>
              snd (solve_rcpsp cp clock f) = (None, ''unknown'', snd clock - fst clock))"
proof -
  from assms(1,2) have "build_model d = Inr m"
    by (simp add: model_of_Inr)
  then obtain ds' pcs ccs where
    ds': "DURATIONS d = Inr ds'" and
    ccs: "capacity_constraints d = Inr ccs" and
    ivs: "intervals m =
       map (\<lambda>i. \<lparr>iv_name = CHR ''T'' # py_str (int i + 1), iv_size = ds' ! i\<rparr>)
         [0..<nat (NB_TASKS d)]" and
    cs: "constraints m = pcs @ ccs"
    by (rule build_model_Inr)
  from ds' assms(3) have [simp]: "ds' = ds" by simp
  have ccs_eq: "ccs = map (\<lambda>r. SumPulseLe (demand_pulses d r) (CAPACITIES d ! r))
               [0..<nat (NB_RESOURCES d)]"
    using capacity_constraints_Inr [OF ccs] by simp
  have unsat: "\<not> satisfies m st" for st
  proof
    assume sat: "satisfies m st"
    from assms(5) have "SumPulseLe (demand_pulses d r) (CAPACITIES d ! r) \<in> set (constraints m)"
      unfolding cs ccs_eq by auto
    with sat have "holds m st (SumPulseLe (demand_pulses d r) (CAPACITIES d ! r))"
      by (rule satisfies_member)
    then have le: "usage m st (demand_pulses d r) (st t) \<le> CAPACITIES d ! r"
      by simp
    let ?g = "\<lambda>t'. if DEMANDS d ! t' ! r > 0 \<and> covers m st t' (st t) then DEMANDS d ! t' ! r else 0"
    have cov: "covers m st t (st t)"
      using covers_built(1) [OF ivs assms(4)] assms(7) by simp
    have "?g t \<le> sum_list (map ?g [0..<nat (NB_TASKS d)])"
      using assms(4) by (intro sum_list_member_le) auto
    with le have "?g t \<le> CAPACITIES d ! r"
      by (simp add: usage_demand_pulses)
    with cov assms(6) show False
      by (simp split: if_splits)
  qed
  have "snd (solve_rcpsp cp clock f) = (None, ''unknown'', snd clock - fst clock)"
    if "cp m TIME_PER_INSTANCE = Solved res" "\<not> is_solution res" for res
  proof -
    from that(1) assms(2) have "try_block cp f = Inr res"
      by (simp add: try_block_def)
    with that(2) show ?thesis
      by (simp add: solve_rcpsp_returned classify_status classify_makespan)
  qed
  then have "\<forall>res. cp m TIME_PER_INSTANCE = Solved res \<and> \<not> is_solution res \<longrightarrow>
              snd (solve_rcpsp cp clock f) = (None, ''unknown'', snd clock - fst clock)"
    by (intro allI impI) (erule conjE)
  moreover from unsat have "\<forall>st. \<not> satisfies m st" ..
  moreover note status_error_iff [OF assms(2), of cp clock]
  ultimately show ?thesis
    by (intro conjI)
qed

theorem overload_not_checked_witness:
  "snd (read_data over_capacity) = Inr over_capacity_data
   \<and> model_of over_capacity = Inr over_capacity_model
   \<and> DURATIONS over_capacity_data = Inr [1]
   \<and> (0::nat) < nat (NB_TASKS over_capacity_data)
   \<and> (0::nat) < nat (NB_RESOURCES over_capacity_data)
   \<and> CAPACITIES over_capacity_data ! 0 < DEMANDS over_capacity_data ! 0 ! 0
   \<and> (0::int) < [1] ! 0
   \<and> \<not> satisfies over_capacity_model (\<lambda>i. 0)
   \<and> snd (solve_rcpsp no_solution (0, 1) over_capacity) = (None, ''unknown'', 1)"
proof -
  have h1: "snd (read_data over_capacity) = Inr over_capacity_data"
    by code_simp
  have h2: "model_of over_capacity = Inr over_capacity_model"
    by code_simp
  have h3: "DURATIONS over_capacity_data = Inr [1]"
    by code_simp
  have h4: "(0::nat) < nat (NB_TASKS over_capacity_data)"
    by (simp add: over_capacity_data_def)
  have h5: "(0::nat) < nat (NB_RESOURCES over_capacity_data)"
    by (simp add: over_capacity_data_def)
  have h6: "CAPACITIES over_capacity_data ! 0 < DEMANDS over_capacity_data ! 0 ! 0"
    by code_simp
  have h7: "(0::int) < [1] ! 0"
    by simp
  note c = overload_not_checked [where cp = no_solution and clock = "(0, 1)",
      OF h1 h2 h3 h4 h5 h6 h7]
  from c have c1: "\<not> satisfies over_capacity_model (\<lambda>i. 0)"
    by blast
  have "no_solution over_capacity_model TIME_PER_INSTANCE =
          Solved \<lparr>is_solution = False, get_solve_status = ''Infeasible'',
                  get_objective_values = None\<rparr>"
    by (simp add: no_solution_def)
  with c have "snd (solve_rcpsp no_solution (0, 1) over_capacity) =
      (None, ''unknown'', snd (0 :: real, 1 :: real) - fst (0 :: real, 1 :: real))"
    by simp
  then have c2: "snd (solve_rcpsp no_solution (0, 1) over_capacity) = (None, ''unknown'', 1)"
    by simp
  show ?thesis
    by (intro conjI) (fact h1 h2 h3 h4 h5 h6 h7 c1 c2)+
qed

text \<open>
  As the claim states it, with status \<open>error\<close>, it fails: a task that demands 3 of a
  resource of capacity 2 gives status \<open>unknown\<close> when the library finds no solution.
\<close>

theorem overload_counterexample:
  "snd (read_data over_capacity) = Inr over_capacity_data
   \<and> DEMANDS over_capacity_data ! 0 ! 0 = 3
   \<and> CAPACITIES over_capacity_data ! 0 = 2
   \<and> status_of (solve_rcpsp no_solution (0, 1) over_capacity) = ''unknown''
   \<and> status_of (solve_rcpsp no_solution (0, 1) over_capacity) \<noteq> ''error''"
  by code_simp

section \<open>Successor ids outside the task list\<close>

text \<open>
  Claim C4, as the code has it. The only rejection of a successor id is the
  \<open>IndexError\<close> of \<open>tasks[s - 1]\<close>: for every instance that is read and has a successor
  id \<open>s\<close> above the number of tasks \<open>N\<close>, or at or below \<open>-N\<close>, \<open>solve_rcpsp\<close> returns
  status \<open>error\<close> and makespan \<open>None\<close>.
\<close>

theorem successor_beyond_range:
  assumes "snd (read_data f) = Inr d" "t < nat (NB_TASKS d)" "s \<in> set (SUCCESSORS d ! t)"
    and "NB_TASKS d < s \<or> s \<le> - NB_TASKS d"
  shows "snd (solve_rcpsp cp clock f) = (None, ''error'', snd clock - fst clock)"
proof -
  from assms(2) have "0 < NB_TASKS d" by simp
  with assms(4) have "successor_edge d t s = Inl IndexError"
    by (rule successor_edge_Inl)
  from traverse_Inl_member [of s "SUCCESSORS d ! t" "successor_edge d t" IndexError,
      OF assms(3) this]
  obtain e where e: "traverse (successor_edge d t) (SUCCESSORS d ! t) = Inl e" ..
  from assms(2) have "t \<in> set [0..<nat (NB_TASKS d)]"
    by simp
  from traverse_Inl_member [of t "[0..<nat (NB_TASKS d)]"
        "\<lambda>t. traverse (successor_edge d t) (SUCCESSORS d ! t)" e, OF this e]
  obtain e' where
    "traverse (\<lambda>t. traverse (successor_edge d t) (SUCCESSORS d ! t)) [0..<nat (NB_TASKS d)] = Inl e'" ..
  then have "precedence_constraints d = Inl e'"
    by (simp add: precedence_constraints_def)
  from build_model_Inl [OF this] obtain e'' where "build_model d = Inl e''" ..
  with assms(1) have "try_block cp f = Inl e''"
    by (simp add: try_block_def model_of_Inr)
  then show ?thesis
    by (rule solve_rcpsp_raised)
qed

theorem successor_beyond_range_witness:
  "snd (read_data third_successor) = Inr third_successor_data
   \<and> (0::nat) < nat (NB_TASKS third_successor_data)
   \<and> 3 \<in> set (SUCCESSORS third_successor_data ! 0)
   \<and> (NB_TASKS third_successor_data < 3 \<or> 3 \<le> - NB_TASKS third_successor_data)
   \<and> snd (solve_rcpsp optimum_5 (0, 1) third_successor) = (None, ''error'', 1)"
proof -
  have h1: "snd (read_data third_successor) = Inr third_successor_data"
    by code_simp
  have h2: "(0::nat) < nat (NB_TASKS third_successor_data)"
    by (simp add: third_successor_data_def)
  have h3: "3 \<in> set (SUCCESSORS third_successor_data ! 0)"
    by code_simp
  have h4: "NB_TASKS third_successor_data < 3 \<or> 3 \<le> - NB_TASKS third_successor_data"
    by (simp add: third_successor_data_def)
  from successor_beyond_range [where cp = optimum_5 and clock = "(0, 1)", OF h1 h2 h3 h4]
  have c: "snd (solve_rcpsp optimum_5 (0, 1) third_successor) = (None, ''error'', 1)"
    by simp
  show ?thesis
    by (intro conjI) (fact h1 h2 h3 h4 c)+
qed

text \<open>
  As the claim states it, for every id outside \<open>1 .. N\<close>, it fails: the id 0 is outside
  that range and the instance is solved.
\<close>

theorem successor_zero_counterexample:
  "snd (read_data zero_successor) = Inr zero_successor_data
   \<and> 0 \<in> set (SUCCESSORS zero_successor_data ! 0)
   \<and> \<not> (1 \<le> (0::int) \<and> (0::int) \<le> NB_TASKS zero_successor_data)
   \<and> snd (solve_rcpsp optimum_5 (0, 1) zero_successor) = (Some 5, ''optimal'', 1)"
  by code_simp

section \<open>The successor id 0\<close>

text \<open>
  Claim C9. A successor id of 0 does not produce status \<open>error\<close>: the edge is built
  with index \<open>s - 1 = -1\<close>, which Python reads from the end of the list, so the edge
  points at the last task. For an instance that is read, whose rows are long enough and
  whose successor ids all lie between \<open>-N + 1\<close> and \<open>N\<close>, the model is built, it contains
  the edge from the task to task \<open>N\<close>, and the status is \<open>error\<close> only when the
  library raises.
\<close>

theorem zero_successor_wraps:
  assumes "snd (read_data f) = Inr d" "DURATIONS d = Inr ds"
    and "\<forall>u<nat (NB_TASKS d). \<forall>s\<in>set (SUCCESSORS d ! u). - NB_TASKS d < s \<and> s \<le> NB_TASKS d"
    and "\<forall>r<nat (NB_RESOURCES d). r < length (CAPACITIES d)
             \<and> (\<forall>u<nat (NB_TASKS d). r < length (DEMANDS d ! u))"
    and "t < nat (NB_TASKS d)" "0 \<in> set (SUCCESSORS d ! t)"
  shows "successor_edge d t 0 = Inr (EndBeforeStart t (nat (NB_TASKS d) - 1))
         \<and> (\<exists>m. model_of f = Inr m
                \<and> EndBeforeStart t (nat (NB_TASKS d) - 1) \<in> set (constraints m)
                \<and> (status_of (solve_rcpsp cp clock f) = ''error'' \<longleftrightarrow>
                     cp m TIME_PER_INSTANCE = BuildRaises \<or> cp m TIME_PER_INSTANCE = SolveRaises))"
proof -
  from assms(5) have pos: "0 < NB_TASKS d" by simp
  then have w0: "wrapped_position d 0 = nat (NB_TASKS d) - 1"
    by (simp add: wrapped_position_def nat_diff_distrib)
  from pos have edge: "successor_edge d t 0 = Inr (EndBeforeStart t (nat (NB_TASKS d) - 1))"
    using successor_edge_wrap [of d 0 t] w0 by simp
  let ?pcs = "concat (map (\<lambda>u. map (\<lambda>s. EndBeforeStart u (wrapped_position d s)) (SUCCESSORS d ! u))
                          [0..<nat (NB_TASKS d)])"
  let ?ccs = "map (\<lambda>r. SumPulseLe (demand_pulses d r) (CAPACITIES d ! r)) [0..<nat (NB_RESOURCES d)]"
  let ?ivs = "map (\<lambda>i. \<lparr>iv_name = CHR ''T'' # py_str (int i + 1), iv_size = ds ! i\<rparr>)
                 [0..<nat (NB_TASKS d)]"
  define m where "m = \<lparr>intervals = ?ivs, constraints = ?pcs @ ?ccs,
                        minimize_max_end_of = [0..<length ?ivs]\<rparr>"
  have "build_model d = Inr m"
    using assms(2) precedence_constraints_wrap [OF assms(3)] capacity_constraints_total [OF assms(4)]
    by (simp add: build_model_def tasks_def m_def)
  with assms(1) have m: "model_of f = Inr m"
    by (simp add: model_of_Inr)
  have "EndBeforeStart t (wrapped_position d 0) \<in> set ?pcs"
    using assms(5,6) by auto
  then have mem: "EndBeforeStart t (nat (NB_TASKS d) - 1) \<in> set (constraints m)"
    by (simp add: m_def w0)
  from m mem status_error_iff [OF m, of cp clock] have
    "\<exists>m. model_of f = Inr m
        \<and> EndBeforeStart t (nat (NB_TASKS d) - 1) \<in> set (constraints m)
        \<and> (status_of (solve_rcpsp cp clock f) = ''error'' \<longleftrightarrow>
             cp m TIME_PER_INSTANCE = BuildRaises \<or> cp m TIME_PER_INSTANCE = SolveRaises)"
    by (intro exI [of _ m] conjI)
  with edge show ?thesis
    by (rule conjI)
qed

theorem zero_successor_wraps_witness:
  "snd (read_data zero_successor) = Inr zero_successor_data
   \<and> DURATIONS zero_successor_data = Inr [3, 2]
   \<and> SUCCESSORS zero_successor_data = [[0], []]
   \<and> DEMANDS zero_successor_data = [[1], [1]]
   \<and> (0::nat) < nat (NB_TASKS zero_successor_data)
   \<and> 0 \<in> set (SUCCESSORS zero_successor_data ! 0)
   \<and> successor_edge zero_successor_data 0 0 = Inr (EndBeforeStart 0 (nat (NB_TASKS zero_successor_data) - 1))
   \<and> nat (NB_TASKS zero_successor_data) - 1 = 1
   \<and> status_of (solve_rcpsp optimum_5 (0, 1) zero_successor) \<noteq> ''error''"
proof -
  have h1: "snd (read_data zero_successor) = Inr zero_successor_data"
    by code_simp
  have h2: "DURATIONS zero_successor_data = Inr [3, 2]"
    by code_simp
  have s: "SUCCESSORS zero_successor_data = [[0], []]"
    by code_simp
  have d: "DEMANDS zero_successor_data = [[1], [1]]"
    by code_simp
  have h3: "\<forall>u<nat (NB_TASKS zero_successor_data). \<forall>s\<in>set (SUCCESSORS zero_successor_data ! u).
         - NB_TASKS zero_successor_data < s \<and> s \<le> NB_TASKS zero_successor_data"
    unfolding s by (simp add: zero_successor_data_def numeral_2_eq_2 less_Suc_eq)
  have h4: "\<forall>r<nat (NB_RESOURCES zero_successor_data). r < length (CAPACITIES zero_successor_data)
         \<and> (\<forall>u<nat (NB_TASKS zero_successor_data). r < length (DEMANDS zero_successor_data ! u))"
    unfolding d by (simp add: zero_successor_data_def numeral_2_eq_2 less_Suc_eq)
  have h5: "(0::nat) < nat (NB_TASKS zero_successor_data)"
    by (simp add: zero_successor_data_def)
  have h6: "0 \<in> set (SUCCESSORS zero_successor_data ! 0)"
    unfolding s by simp
  note c = zero_successor_wraps [where cp = optimum_5 and clock = "(0, 1)",
      OF h1 h2 h3 h4 h5 h6]
  from c have c1: "successor_edge zero_successor_data 0 0 =
      Inr (EndBeforeStart 0 (nat (NB_TASKS zero_successor_data) - 1))"
    by blast
  have c2: "nat (NB_TASKS zero_successor_data) - 1 = 1"
    by (simp add: zero_successor_data_def)
  from c obtain m where
    "status_of (solve_rcpsp optimum_5 (0, 1) zero_successor) = ''error'' \<longleftrightarrow>
       optimum_5 m TIME_PER_INSTANCE = BuildRaises \<or> optimum_5 m TIME_PER_INSTANCE = SolveRaises"
    by blast
  then have c3: "status_of (solve_rcpsp optimum_5 (0, 1) zero_successor) \<noteq> ''error''"
    by (simp add: optimum_5_def)
  show ?thesis
    by (intro conjI) (fact h1 h2 s d h5 h6 c1 c2 c3)+
qed

end
